theory Spec2Isabelle
  imports Main "HOL-Library.Word" "HOL-Library.AList"
begin

unbundle bit_operations_syntax

section \<open>JavaScript strings\<close>

text \<open>
  A JavaScript string is a sequence of UTF-16 code units. ASCII literals of the source are
  written with \<open>ascii\<close>; the Chinese literals and the cross mark are written as their code
  units.
\<close>

type_synonym jsstring = "16 word list"

definition ascii :: "string \<Rightarrow> jsstring" where
  "ascii cs = map of_char cs"

definition str_newline :: jsstring where
  \<comment> \<open>\<open>'\n'\<close>\<close>
  "str_newline = [0x0A]"

definition str_double_newline :: jsstring where
  \<comment> \<open>\<open>'\n\n'\<close>\<close>
  "str_double_newline = [0x0A, 0x0A]"

definition str_system :: jsstring where
  \<comment> \<open>the default agent name of \<open>parsedData.agent || ...\<close> (U+7CFB U+7EDF)\<close>
  "str_system = [0x7CFB, 0x7EDF]"

definition str_user_agent :: jsstring where
  \<comment> \<open>the agent name of the user message in \<open>handleSubmit\<close> (U+7528 U+6237)\<close>
  "str_user_agent = [0x7528, 0x6237]"

definition str_cross_mark :: jsstring where
  \<comment> \<open>the prefix of the template literal in the error branch: U+274C and a space\<close>
  "str_cross_mark = [0x274C, 0x20]"

definition is_js_whitespace :: "16 word \<Rightarrow> bool" where
  \<comment> \<open>WhiteSpace and LineTerminator of ECMAScript, the code units \<open>trim\<close> removes\<close>
  "is_js_whitespace c =
     (c = 0x09 \<or> c = 0x0A \<or> c = 0x0B \<or> c = 0x0C \<or> c = 0x0D \<or> c = 0x20 \<or> c = 0xA0
      \<or> c = 0x1680 \<or> (0x2000 \<le> c \<and> c \<le> 0x200A) \<or> c = 0x2028 \<or> c = 0x2029
      \<or> c = 0x202F \<or> c = 0x205F \<or> c = 0x3000 \<or> c = 0xFEFF)"

definition trim :: "jsstring \<Rightarrow> jsstring" where
  "trim s = rev (dropWhile is_js_whitespace (rev (dropWhile is_js_whitespace s)))"

definition startsWith :: "jsstring \<Rightarrow> jsstring \<Rightarrow> bool" where
  "startsWith s p = (take (length p) s = p)"

definition endsWith :: "jsstring \<Rightarrow> jsstring \<Rightarrow> bool" where
  "endsWith s p = (length p \<le> length s \<and> drop (length s - length p) s = p)"

fun split :: "16 word \<Rightarrow> jsstring \<Rightarrow> jsstring list" where
  "split sep [] = [Nil]"
| "split sep (c # cs) =
     (if c = sep then [] # split sep cs
      else (case split sep cs of
              [] \<Rightarrow> [c # Nil]
            | l # ls \<Rightarrow> (c # l) # ls))"

section \<open>JSON values and objects\<close>

text \<open>
  A number is kept as the bit pattern of its IEEE-754 double; the code never computes with
  one, it only tests truthiness in \<open>parsedData.agent || ...\<close>. An object is an association
  list in property order: reading a property is \<open>map_of\<close>, and the spread
  \<open>{...obj, message: v}\<close> is \<open>AList.update\<close> (the property keeps its place, or is added at
  the end).
\<close>

datatype json =
    JNull
  | JBool bool
  | JNum "64 word"
  | JStr jsstring
  | JArr "json list"
  | JObj "(jsstring \<times> json) list"

type_synonym jobject = "(jsstring \<times> json) list"

definition key_type :: jsstring where "key_type = ascii ''type''"
definition key_node :: jsstring where "key_node = ascii ''node''"
definition key_agent :: jsstring where "key_agent = ascii ''agent''"
definition key_message :: jsstring where "key_message = ascii ''message''"
definition key_timestamp :: jsstring where "key_timestamp = ascii ''timestamp''"

definition number_falsy :: "64 word \<Rightarrow> bool" where
  \<comment> \<open>\<open>+0\<close>, \<open>-0\<close> and NaN\<close>
  "number_falsy w =
     (w = 0 \<or> w = 0x8000000000000000
      \<or> (take_bit 11 (drop_bit 52 w) = 0x7FF \<and> take_bit 52 w \<noteq> 0))"

fun truthy :: "json \<Rightarrow> bool" where
  "truthy JNull = False"
| "truthy (JBool b) = b"
| "truthy (JNum w) = (if number_falsy w then False else True)"
| "truthy (JStr s) = (if s = [] then False else True)"
| "truthy (JArr xs) = True"
| "truthy (JObj kvs) = True"

definition agentNameOf :: "jobject \<Rightarrow> json" where
  \<comment> \<open>\<open>message.agent || '...'\<close> with the default name \<open>str_system\<close>\<close>
  "agentNameOf message =
     (case map_of message key_agent of
        None \<Rightarrow> JStr str_system
      | Some v \<Rightarrow> if truthy v then v else JStr str_system)"

datatype js_error = TypeError | SyntaxError

datatype text_field = Undefined | Null | Text jsstring

definition message_field :: "jobject \<Rightarrow> js_error + text_field" where
  \<comment> \<open>\<open>parsedData.message\<close> as the logging expression \<open>parsedData.message?.substring(0, 50)\<close>
      lets it through: \<open>?.\<close> stops at undefined and null, a string has \<open>substring\<close>, and on
      any other value \<open>substring\<close> is not a function and the call raises\<close>
  "message_field parsedData =
     (case map_of parsedData key_message of
        None \<Rightarrow> Inr Undefined
      | Some JNull \<Rightarrow> Inr Null
      | Some (JStr t) \<Rightarrow> Inr (Text t)
      | Some (JBool b) \<Rightarrow> Inl TypeError
      | Some (JNum w) \<Rightarrow> Inl TypeError
      | Some (JArr xs) \<Rightarrow> Inl TypeError
      | Some (JObj kvs) \<Rightarrow> Inl TypeError)"

fun to_string :: "text_field \<Rightarrow> jsstring" where
  \<comment> \<open>what string concatenation makes of \<open>parsedData.message\<close>\<close>
  "to_string Undefined = ascii ''undefined''"
| "to_string Null = ascii ''null''"
| "to_string (Text t) = t"

section \<open>The application state of App.vue\<close>

datatype agent_status = Idle | Active | Completed

record agent =
  name :: jsstring
  avatar :: jsstring
  status :: agent_status
  active :: bool
  role :: jsstring
  layer :: nat

record app_state =
  messages :: "jobject list"
  loading :: bool
  error :: jsstring
  currentActiveAgent :: jsstring
  currentMainMessageIndex :: int
  agentTeam :: "agent list"

definition mk_agent :: "jsstring \<Rightarrow> jsstring \<Rightarrow> jsstring \<Rightarrow> nat \<Rightarrow> agent" where
  "mk_agent n av r l =
     \<lparr>name = n, avatar = av, status = Idle, active = False, role = r, layer = l\<rparr>"

definition name_supervisor :: jsstring where
  "name_supervisor = [0x4E3B, 0x7BA1]"

definition initial_agentTeam :: "agent list" where
  "initial_agentTeam =
     [mk_agent name_supervisor [0xD83D, 0xDC68, 0x200D, 0xD83D, 0xDCBC] (ascii ''supervisor'') 1,
      mk_agent [0x7814, 0x7A76, 0x56E2, 0x961F] [0xD83D, 0xDC65] (ascii ''research_team'') 2,
      mk_agent [0x6587, 0x6863, 0x5199, 0x4F5C, 0x56E2, 0x961F] [0xD83D, 0xDCDD]
        (ascii ''document_writing_team'') 2,
      mk_agent [0x641C, 0x7D22, 0x5668] [0xD83D, 0xDD0D] (ascii ''searcher'') 3,
      mk_agent [0x7F51, 0x9875, 0x722C, 0x866B] [0xD83D, 0xDD77, 0xFE0F] (ascii ''web_crawler'') 3,
      mk_agent [0x5199, 0x4F5C, 0x8005] [0x270D, 0xFE0F] (ascii ''writer'') 3,
      mk_agent [0x8BB0, 0x4E8B, 0x672C] [0xD83D, 0xDCD3] (ascii ''notebook'') 3,
      mk_agent [0x56FE, 0x8868, 0x751F, 0x6210, 0x5668] [0xD83D, 0xDCCA]
        (ascii ''chart_generator'') 3]"

definition initial_state :: app_state where
  "initial_state =
     \<lparr>messages = [], loading = False, error = [], currentActiveAgent = [],
      currentMainMessageIndex = - 1, agentTeam = initial_agentTeam\<rparr>"

section \<open>Agent activity: updateAgentStatus and updateAgentFromMessage\<close>

definition set_agent :: "agent_status \<Rightarrow> agent \<Rightarrow> agent" where
  \<comment> \<open>\<open>agent.status = status; agent.active = status === 'active'\<close>\<close>
  "set_agent st a = a\<lparr>status := st, active := (st = Active)\<rparr>"

definition updateAgentStatus :: "agent_status \<Rightarrow> app_state \<Rightarrow> app_state" where
  "updateAgentStatus st s = s\<lparr>agentTeam := map (set_agent st) (agentTeam s)\<rparr>"

fun update_first :: "('a \<Rightarrow> bool) \<Rightarrow> ('a \<Rightarrow> 'a) \<Rightarrow> 'a list \<Rightarrow> 'a list" where
  \<comment> \<open>assignment to the fields of the object that \<open>find\<close> returned: the first match\<close>
  "update_first p f [] = []"
| "update_first p f (x # xs) = (if p x then f x # xs else x # update_first p f xs)"

definition end_branch :: "jobject \<Rightarrow> app_state \<Rightarrow> app_state" where
  \<comment> \<open>the \<open>else if (message.type === 'end')\<close> of \<open>updateAgentFromMessage\<close>, reached only
      when \<open>find\<close> returned no agent\<close>
  "end_branch message s =
     (if map_of message key_type = Some (JStr (ascii ''end''))
      then s\<lparr>agentTeam := map (\<lambda>a. a\<lparr>status := Idle, active := False\<rparr>) (agentTeam s),
             currentActiveAgent := []\<rparr>
      else s)"

definition agent_branch :: "jobject \<Rightarrow> jsstring \<Rightarrow> app_state \<Rightarrow> app_state" where
  \<comment> \<open>the \<open>if (agent)\<close> of \<open>updateAgentFromMessage\<close>\<close>
  "agent_branch message agentName s =
     (let ty = map_of message key_type;
          found = (\<lambda>a. name a = agentName) in
      if ty = Some (JStr (ascii ''status'')) then
        s\<lparr>agentTeam := update_first found (\<lambda>a. a\<lparr>status := Active, active := True\<rparr>) (agentTeam s),
          currentActiveAgent := agentName\<rparr>
      else if ty = Some (JStr (ascii ''result'')) \<or> ty = Some (JStr (ascii ''final'')) then
        (let s1 = s\<lparr>agentTeam :=
                      update_first found (\<lambda>a. a\<lparr>status := Completed, active := False\<rparr>) (agentTeam s)\<rparr>
         in if ty = Some (JStr (ascii ''final'')) then s1\<lparr>currentActiveAgent := []\<rparr> else s1)
      else if ty = Some (JStr (ascii ''error'')) then
        s\<lparr>agentTeam := update_first found (\<lambda>a. a\<lparr>status := Idle, active := False\<rparr>) (agentTeam s),
          currentActiveAgent := []\<rparr>
      else s)"

definition updateAgentFromMessage :: "jobject \<Rightarrow> app_state \<Rightarrow> app_state" where
  "updateAgentFromMessage message s =
     (case agentNameOf message of
        JStr agentName \<Rightarrow>
          (case List.find (\<lambda>a. name a = agentName) (agentTeam s) of
             Some agent \<Rightarrow> agent_branch message agentName s
           | None \<Rightarrow> end_branch message s)
      | JNull \<Rightarrow> end_branch message s
      | JBool b \<Rightarrow> end_branch message s
      | JNum w \<Rightarrow> end_branch message s
      | JArr xs \<Rightarrow> end_branch message s
      | JObj kvs \<Rightarrow> end_branch message s)"

section \<open>The transcript: the per-kind dispatch of fetchStreamData\<close>

definition push_open :: "jobject \<Rightarrow> app_state \<Rightarrow> app_state" where
  \<comment> \<open>\<open>messages.value.push(parsedData);
       currentMainMessageIndex.value = messages.value.length - 1\<close>\<close>
  "push_open parsedData s =
     s\<lparr>messages := messages s @ [parsedData],
       currentMainMessageIndex := int (length (messages s @ [parsedData])) - 1\<rparr>"

definition merge_into :: "jsstring \<Rightarrow> jsstring \<Rightarrow> app_state \<Rightarrow> js_error + app_state" where
  \<comment> \<open>the merge of the thinking, result/final, error and status branches, which differ in
      the separator (\<open>sep\<close>) and in the appended text (\<open>addition\<close>) only. An index outside
      the array reads undefined and \<open>if (currentMessage)\<close> skips the merge; a stored
      message that is no string has no \<open>endsWith\<close> and the call raises, before any
      change of the state.\<close>
  "merge_into sep addition s =
     (let index = currentMainMessageIndex s in
      if 0 \<le> index \<and> index < int (length (messages s)) then
        (let currentMessage = messages s ! nat index in
         case map_of currentMessage key_message of
           Some (JStr m) \<Rightarrow>
             (let separator = (if endsWith m str_newline then [] else sep);
                  newMessage = AList.update key_message (JStr (m @ separator @ addition)) currentMessage
              in Inr (s\<lparr>messages := (messages s)[nat index := newMessage]\<rparr>))
         | Some JNull \<Rightarrow> Inl TypeError
         | Some (JBool b) \<Rightarrow> Inl TypeError
         | Some (JNum w) \<Rightarrow> Inl TypeError
         | Some (JArr xs) \<Rightarrow> Inl TypeError
         | Some (JObj kvs) \<Rightarrow> Inl TypeError
         | None \<Rightarrow> Inl TypeError)
      else Inr s)"

definition aggregate :: "jobject \<Rightarrow> text_field \<Rightarrow> app_state \<Rightarrow> js_error + app_state" where
  \<comment> \<open>the body of \<open>if (parsedData.node === 'supervisor')\<close>; \<open>text\<close> is
      \<open>parsedData.message\<close>\<close>
  "aggregate parsedData text s =
     (let messageType = map_of parsedData key_type in
      if messageType = Some (JStr (ascii ''thinking'')) then
        (if currentMainMessageIndex s = - 1 then Inr (push_open parsedData s)
         else merge_into str_newline (to_string text) s)
      else if messageType = Some (JStr (ascii ''result''))
              \<or> messageType = Some (JStr (ascii ''final'')) then
        (if currentMainMessageIndex s \<noteq> - 1
         then merge_into str_double_newline (to_string text) s
         else Inr (push_open parsedData s))
      else if messageType = Some (JStr (ascii ''error'')) then
        (if currentMainMessageIndex s \<noteq> - 1
         then merge_into str_double_newline (str_cross_mark @ to_string text) s
         else Inr (push_open parsedData s))
      else if messageType = Some (JStr (ascii ''status'')) then
        (if currentMainMessageIndex s \<noteq> - 1
         then merge_into str_newline (to_string text) s
         else Inr (push_open parsedData s))
      else if messageType = Some (JStr (ascii ''connection''))
              \<or> messageType = Some (JStr (ascii ''end'')) then
        Inr (s\<lparr>messages := messages s @ [parsedData]\<rparr>)
      else Inr s)"

definition finish :: "jobject \<Rightarrow> app_state \<Rightarrow> app_state" where
  \<comment> \<open>\<open>if (parsedData.type === 'end' || parsedData.type === 'final')\<close> after
      \<open>updateAgentFromMessage\<close>\<close>
  "finish parsedData s =
     (if map_of parsedData key_type = Some (JStr (ascii ''end''))
         \<or> map_of parsedData key_type = Some (JStr (ascii ''final''))
      then (updateAgentStatus Idle (s\<lparr>loading := False\<rparr>))\<lparr>currentMainMessageIndex := - 1\<rparr>
      else s)"

definition handleEvent :: "jobject \<Rightarrow> app_state \<Rightarrow> js_error + app_state" where
  \<comment> \<open>the body of the \<open>try\<close> after \<open>JSON.parse\<close>: the logging line, the transcript, the agent
      state, the end of the run. \<open>Inl\<close> is an exception on its way to the \<open>catch\<close>; each is
      raised before the event has changed anything.\<close>
  "handleEvent parsedData s =
     (case message_field parsedData of
        Inl err \<Rightarrow> Inl err
      | Inr text \<Rightarrow>
          (case (if map_of parsedData key_node = Some (JStr (ascii ''supervisor''))
                 then aggregate parsedData text s else Inr s) of
             Inl err \<Rightarrow> Inl err
           | Inr s1 \<Rightarrow> Inr (finish parsedData (updateAgentFromMessage parsedData s1))))"

definition processEvent :: "jobject \<Rightarrow> app_state \<Rightarrow> app_state" where
  \<comment> \<open>\<open>try { ... } catch (err) { console.error(...) }\<close>: the exception is logged and the loop
      goes on with the state as it was\<close>
  "processEvent parsedData s =
     (case handleEvent parsedData s of Inl err \<Rightarrow> s | Inr s' \<Rightarrow> s')"

section \<open>Lines and chunks\<close>

text \<open>
  \<open>JSON.parse\<close> is the platform's: it is a parameter \<open>parse\<close>, \<open>None\<close> for a SyntaxError. It is
  only called on a text whose last code unit is a closing brace, and a JSON text that ends
  so is an object, hence the result type.
\<close>

type_synonym json_parse = "jsstring \<Rightarrow> jobject option"

definition processLine :: "json_parse \<Rightarrow> jsstring \<Rightarrow> app_state \<Rightarrow> app_state" where
  \<comment> \<open>the body of \<open>for (const line of lines)\<close>\<close>
  "processLine parse line s =
     (if trim line \<noteq> [] \<and> startsWith line (ascii ''data: '') then
        (let jsonData = trim (drop 6 line) in
         if endsWith jsonData (ascii ''}'') then
           (case parse jsonData of
              None \<Rightarrow> s
            | Some parsedData \<Rightarrow> processEvent parsedData s)
         else s)
      else s)"

definition processChunk :: "json_parse \<Rightarrow> jsstring \<Rightarrow> jsstring \<times> app_state \<Rightarrow> jsstring \<times> app_state" where
  \<comment> \<open>one turn of \<open>while (true)\<close> with a chunk read: the pair is the local \<open>buffer\<close> and the
      state\<close>
  "processChunk parse chunk bs =
     (let lines = split 0x0A (fst bs @ chunk);
          lastLine = last lines
      in (lastLine, foldl (\<lambda>s line. processLine parse line s) (snd bs) (butlast lines)))"

definition readStream :: "json_parse \<Rightarrow> jsstring list \<Rightarrow> app_state \<Rightarrow> app_state" where
  \<comment> \<open>the read loop over the chunks of a response that ends with \<open>done\<close>; what is left in
      the buffer is dropped\<close>
  "readStream parse chunks s =
     snd (foldl (\<lambda>bs chunk. processChunk parse chunk bs) ([], s\<lparr>loading := True\<rparr>) chunks)"

section \<open>handleSubmit, and the view of ChatDisplay\<close>

definition userMessage :: "jsstring \<Rightarrow> jsstring \<Rightarrow> jobject" where
  "userMessage task now =
     [(key_type, JStr (ascii ''user'')), (key_agent, JStr str_user_agent),
      (key_message, JStr task), (key_timestamp, JStr now)]"

definition handleSubmit :: "jsstring \<Rightarrow> jsstring \<Rightarrow> app_state \<Rightarrow> app_state" where
  \<comment> \<open>\<open>now\<close> is \<open>new Date().toISOString()\<close>. The call \<open>fetchStreamData(task)\<close> that ends
      \<open>handleSubmit\<close> starts the reader; its events arrive later, one by one.\<close>
  "handleSubmit task now s =
     (let s1 = s\<lparr>error := []\<rparr>;
          s2 = s1\<lparr>messages := []\<rparr>;
          s3 = s2\<lparr>messages := messages s2 @ [userMessage task now]\<rparr>;
          s4 = s3\<lparr>currentMainMessageIndex := - 1\<rparr>;
          s5 = s4\<lparr>loading := True\<rparr>
      in updateAgentStatus Active s5)"

definition filteredMessages :: "jobject list \<Rightarrow> jobject list" where
  \<comment> \<open>\<open>props.messages.filter(message => message.type !== 'user')\<close>\<close>
  "filteredMessages ms =
     filter (\<lambda>message. map_of message key_type \<noteq> Some (JStr (ascii ''user''))) ms"

datatype template =
    MessageConnection | MessageStatus | MessageDecomposition | MessageAssignment
  | MessageExecution | MessageThinking | MessageResult | MessageAggregation
  | MessageFinal | MessageUser | MessageError | MessageEnd

definition messageTemplate :: "jobject \<Rightarrow> template option" where
  \<comment> \<open>the \<open>v-if\<close> / \<open>v-else-if\<close> chain of the template of ChatDisplay: the block that shows
      a message, \<open>None\<close> when no block does\<close>
  "messageTemplate message =
     (let ty = map_of message key_type in
      if ty = Some (JStr (ascii ''connection'')) then Some MessageConnection
      else if ty = Some (JStr (ascii ''status'')) then Some MessageStatus
      else if ty = Some (JStr (ascii ''decomposition'')) then Some MessageDecomposition
      else if ty = Some (JStr (ascii ''assignment'')) then Some MessageAssignment
      else if ty = Some (JStr (ascii ''execution'')) then Some MessageExecution
      else if ty = Some (JStr (ascii ''thinking'')) then Some MessageThinking
      else if ty = Some (JStr (ascii ''result'')) then Some MessageResult
      else if ty = Some (JStr (ascii ''aggregation'')) then Some MessageAggregation
      else if ty = Some (JStr (ascii ''final'')) then Some MessageFinal
      else if ty = Some (JStr (ascii ''user'')) then Some MessageUser
      else if ty = Some (JStr (ascii ''error'')) then Some MessageError
      else if ty = Some (JStr (ascii ''end'')) then Some MessageEnd
      else None)"

section \<open>Runs\<close>

definition event :: "string \<Rightarrow> string \<Rightarrow> jsstring \<Rightarrow> jsstring \<Rightarrow> jobject" where
  \<comment> \<open>the object of a wire line \<open>{"type": ty, "node": nd, "agent": ag, "message": msg}\<close>\<close>
  "event ty nd ag msg =
     [(key_type, JStr (ascii ty)), (key_node, JStr (ascii nd)), (key_agent, JStr ag),
      (key_message, JStr msg)]"

definition run_events :: "jobject list \<Rightarrow> app_state \<Rightarrow> app_state" where
  \<comment> \<open>the loop body on the parsed events of a stream, in arrival order\<close>
  "run_events es s = foldl (\<lambda>s e. processEvent e s) s es"

definition thinking_line :: "string \<Rightarrow> jsstring" where
  \<comment> \<open>the wire line of a supervisor thinking event of agent A with message \<open>m\<close>:
      \<open>data: {"type":"thinking","node":"supervisor","agent":"A","message":"m"}\<close>\<close>
  "thinking_line m =
     ascii (''data: {\"type\":\"thinking\",\"node\":\"supervisor\",\"agent\":\"A\",\"message\":\"''
            @ m @ ''\"}'')"

definition example_parse :: json_parse where
  \<comment> \<open>\<open>JSON.parse\<close> on the payloads of the two lines \<open>thinking_line ''x''\<close> and
      \<open>thinking_line ''y''\<close>, a SyntaxError elsewhere\<close>
  "example_parse t =
     (if t = trim (drop 6 (thinking_line ''x''))
      then Some (event ''thinking'' ''supervisor'' (ascii ''A'') (ascii ''x''))
      else if t = trim (drop 6 (thinking_line ''y''))
      then Some (event ''thinking'' ''supervisor'' (ascii ''A'') (ascii ''y''))
      else None)"

text \<open>
  Two calls of \<open>fetchStreamData\<close> may be reading at the same time: \<open>handleSubmit\<close> starts one
  without ending the one before, and both work on the same refs. The loop body is not
  atomic: it suspends at \<open>await nextTick()\<close>, after the logging line and the transcript
  dispatch and before \<open>updateAgentFromMessage\<close> and the handler of end and final events, and
  whatever else is ready runs in between. \<open>dispatch\<close> is the part before the suspension,
  \<open>resume\<close> the part after it.
\<close>

definition dispatch :: "jobject \<Rightarrow> app_state \<Rightarrow> js_error + app_state" where
  \<comment> \<open>the body of the \<open>try\<close> from after \<open>JSON.parse\<close> up to \<open>await nextTick()\<close>\<close>
  "dispatch parsedData s =
     (case message_field parsedData of
        Inl err \<Rightarrow> Inl err
      | Inr text \<Rightarrow>
          (if map_of parsedData key_node = Some (JStr (ascii ''supervisor''))
           then aggregate parsedData text s else Inr s))"

definition resume :: "jobject \<Rightarrow> app_state \<Rightarrow> app_state" where
  \<comment> \<open>the body of the \<open>try\<close> after \<open>await nextTick()\<close>: \<open>updateAgentFromMessage(parsedData)\<close>
      and the handler of end and final events\<close>
  "resume parsedData s = finish parsedData (updateAgentFromMessage parsedData s)"

text \<open>
  The page with its readers. The readers are numbered in the order of the submissions
  that started them; the number only tells them apart, the source keeps none. A reader is
  either between two lines or suspended at \<open>await nextTick()\<close> with the event it parsed.
  \<open>Submit task now\<close>: \<open>handleSubmit\<close>, whose last call starts a reader, which sets
  \<open>loading\<close> before its first \<open>await\<close>.
  \<open>Dispatch r e\<close>: reader \<open>r\<close>, between two lines, has parsed \<open>e\<close> and runs up to the
  suspension; an exception is caught and leaves the reader between two lines.
  \<open>Resume r\<close>: the suspended reader \<open>r\<close> goes on to the end of the loop body. An action that
  the page cannot take has no successor.
\<close>

record page =
  app :: app_state
  readers :: nat
  suspended :: "(nat \<times> jobject) list"

definition initial_page :: page where
  "initial_page = \<lparr>app = initial_state, readers = 0, suspended = []\<rparr>"

datatype action = Submit jsstring jsstring | Dispatch nat jobject | Resume nat

fun step :: "action \<Rightarrow> page \<Rightarrow> page option" where
  "step (Submit task now) p =
     Some (p\<lparr>app := (handleSubmit task now (app p))\<lparr>loading := True\<rparr>,
             readers := Suc (readers p)\<rparr>)"
| "step (Dispatch r parsedData) p =
     (if 1 \<le> r \<and> r \<le> readers p \<and> map_of (suspended p) r = None then
        (case dispatch parsedData (app p) of
           Inl err \<Rightarrow> Some p
         | Inr s1 \<Rightarrow>
             Some (p\<lparr>app := s1, suspended := AList.update r parsedData (suspended p)\<rparr>))
      else None)"
| "step (Resume r) p =
     (case map_of (suspended p) r of
        None \<Rightarrow> None
      | Some parsedData \<Rightarrow>
          Some (p\<lparr>app := resume parsedData (app p),
                  suspended := AList.delete r (suspended p)\<rparr>))"

fun run_actions :: "action list \<Rightarrow> page \<Rightarrow> page option" where
  "run_actions [] p = Some p"
| "run_actions (a # as) p =
     (case step a p of
        None \<Rightarrow> None
      | Some p' \<Rightarrow> run_actions as p')"

section \<open>Fragments joined by single newlines\<close>

fun joined :: "jsstring list \<Rightarrow> jsstring" where
  \<comment> \<open>the text the specification promises for a sequence of thinking fragments: one
      newline between two fragments, the first fragment's own final newline counting as
      that newline\<close>
  "joined [] = []"
| "joined [f] = f"
| "joined (f # g # fs) =
     f @ (if endsWith f str_newline then [] else str_newline) @ joined (g # fs)"

section \<open>The transcript with object identity\<close>

text \<open>
  The same dispatch over a store of objects: \<open>messages.value\<close> holds references, an object
  literal and \<open>JSON.parse\<close> allocate, and \<open>splice\<close> overwrites a reference. An address is
  the position of the object in the store, and nothing is ever freed.
\<close>

record heap_state =
  store :: "jobject list"
  messageRefs :: "nat list"
  mainIndex :: int

definition alloc :: "jobject \<Rightarrow> heap_state \<Rightarrow> nat \<times> heap_state" where
  "alloc obj h = (length (store h), h\<lparr>store := store h @ [obj]\<rparr>)"

definition push_open_h :: "nat \<Rightarrow> heap_state \<Rightarrow> heap_state" where
  "push_open_h r h =
     h\<lparr>messageRefs := messageRefs h @ [r],
       mainIndex := int (length (messageRefs h @ [r])) - 1\<rparr>"

definition merge_into_h :: "jsstring \<Rightarrow> jsstring \<Rightarrow> heap_state \<Rightarrow> js_error + heap_state" where
  \<comment> \<open>as \<open>merge_into\<close>; \<open>newMessage\<close> is an object literal, hence a new object, and
      \<open>splice(index, 1, newMessage)\<close> stores its reference\<close>
  "merge_into_h sep addition h =
     (let index = mainIndex h in
      if 0 \<le> index \<and> index < int (length (messageRefs h)) then
        (let currentMessage = store h ! (messageRefs h ! nat index) in
         case map_of currentMessage key_message of
           Some (JStr m) \<Rightarrow>
             (let separator = (if endsWith m str_newline then [] else sep);
                  (newMessage, h1) =
                     alloc (AList.update key_message (JStr (m @ separator @ addition)) currentMessage) h
              in Inr (h1\<lparr>messageRefs := (messageRefs h1)[nat index := newMessage]\<rparr>))
         | Some JNull \<Rightarrow> Inl TypeError
         | Some (JBool b) \<Rightarrow> Inl TypeError
         | Some (JNum w) \<Rightarrow> Inl TypeError
         | Some (JArr xs) \<Rightarrow> Inl TypeError
         | Some (JObj kvs) \<Rightarrow> Inl TypeError
         | None \<Rightarrow> Inl TypeError)
      else Inr h)"

definition aggregate_h :: "nat \<Rightarrow> text_field \<Rightarrow> heap_state \<Rightarrow> js_error + heap_state" where
  \<comment> \<open>as \<open>aggregate\<close>; \<open>parsedData\<close> is the reference of the object \<open>JSON.parse\<close> made\<close>
  "aggregate_h parsedData text h =
     (let messageType = map_of (store h ! parsedData) key_type in
      if messageType = Some (JStr (ascii ''thinking'')) then
        (if mainIndex h = - 1 then Inr (push_open_h parsedData h)
         else merge_into_h str_newline (to_string text) h)
      else if messageType = Some (JStr (ascii ''result''))
              \<or> messageType = Some (JStr (ascii ''final'')) then
        (if mainIndex h \<noteq> - 1
         then merge_into_h str_double_newline (to_string text) h
         else Inr (push_open_h parsedData h))
      else if messageType = Some (JStr (ascii ''error'')) then
        (if mainIndex h \<noteq> - 1
         then merge_into_h str_double_newline (str_cross_mark @ to_string text) h
         else Inr (push_open_h parsedData h))
      else if messageType = Some (JStr (ascii ''status'')) then
        (if mainIndex h \<noteq> - 1
         then merge_into_h str_newline (to_string text) h
         else Inr (push_open_h parsedData h))
      else if messageType = Some (JStr (ascii ''connection''))
              \<or> messageType = Some (JStr (ascii ''end'')) then
        Inr (h\<lparr>messageRefs := messageRefs h @ [parsedData]\<rparr>)
      else Inr h)"

definition aggregate_parsed :: "jobject \<Rightarrow> text_field \<Rightarrow> heap_state \<Rightarrow> js_error + heap_state" where
  \<comment> \<open>\<open>JSON.parse\<close> makes the object, then the dispatch runs on its reference\<close>
  "aggregate_parsed obj text h = (let (parsedData, h1) = alloc obj h in aggregate_h parsedData text h1)"

definition refs_valid :: "heap_state \<Rightarrow> bool" where
  \<comment> \<open>every reference of the array is the address of an object\<close>
  "refs_valid h = list_all (\<lambda>r. r < length (store h)) (messageRefs h)"

definition view :: "heap_state \<Rightarrow> app_state \<Rightarrow> app_state" where
  \<comment> \<open>the state by value that a store stands for: each reference read\<close>
  "view h s =
     s\<lparr>messages := map (\<lambda>r. store h ! r) (messageRefs h), currentMainMessageIndex := mainIndex h\<rparr>"

section \<open>Strings of the source are distinct; evaluation of examples\<close>

lemmas str_defs =
  ascii_def key_type_def key_node_def key_agent_def key_message_def key_timestamp_def
  str_newline_def str_double_newline_def str_system_def str_user_agent_def
  str_cross_mark_def name_supervisor_def

lemmas run_defs =
  processEvent_def handleEvent_def message_field_def aggregate_def merge_into_def
  push_open_def finish_def updateAgentFromMessage_def agentNameOf_def agent_branch_def
  end_branch_def updateAgentStatus_def set_agent_def handleSubmit_def userMessage_def
  initial_state_def initial_agentTeam_def mk_agent_def endsWith_def event_def

lemma endsWith_single: "endsWith s [c] = (s \<noteq> [] \<and> last s = c)"
proof (cases s rule: rev_cases)
  case Nil
  then show ?thesis by (simp add: endsWith_def)
next
  case (snoc ys y)
  then show ?thesis by (simp add: endsWith_def)
qed

section \<open>Events of other kinds\<close>

lemma updateAgentFromMessage_other_kind:
  assumes "map_of e key_type = Some (JStr k)"
    and "k \<noteq> ascii ''status''" "k \<noteq> ascii ''result''" "k \<noteq> ascii ''final''"
    and "k \<noteq> ascii ''error''" "k \<noteq> ascii ''end''"
  shows "updateAgentFromMessage e s = s"
  using assms
  by (simp add: updateAgentFromMessage_def agent_branch_def end_branch_def
      split: json.splits option.splits)

lemma aggregate_other_kind:
  assumes "map_of e key_type = Some (JStr k)"
    and "k \<noteq> ascii ''thinking''" "k \<noteq> ascii ''status''" "k \<noteq> ascii ''result''"
    and "k \<noteq> ascii ''final''" "k \<noteq> ascii ''error''" "k \<noteq> ascii ''end''"
    and "k \<noteq> ascii ''connection''"
  shows "aggregate e text s = Inr s"
  using assms by (simp add: aggregate_def)

lemma finish_other_kind:
  assumes "map_of e key_type = Some (JStr k)" "k \<noteq> ascii ''final''" "k \<noteq> ascii ''end''"
  shows "finish e s = s"
  using assms by (simp add: finish_def)

lemma processEvent_other_kind:
  assumes "map_of e key_type = Some (JStr k)"
    and "k \<noteq> ascii ''thinking''" "k \<noteq> ascii ''status''" "k \<noteq> ascii ''result''"
    and "k \<noteq> ascii ''final''" "k \<noteq> ascii ''error''" "k \<noteq> ascii ''end''"
    and "k \<noteq> ascii ''connection''"
  shows "processEvent e s = s"
  using assms
  by (simp add: processEvent_def handleEvent_def aggregate_other_kind
      updateAgentFromMessage_other_kind finish_other_kind split: sum.splits)

lemma messageTemplate_structured:
  assumes "map_of e key_type = Some (JStr k)"
    and "k = ascii ''decomposition'' \<or> k = ascii ''assignment'' \<or> k = ascii ''execution''
         \<or> k = ascii ''aggregation''"
  shows "messageTemplate e \<in> {Some MessageDecomposition, Some MessageAssignment,
           Some MessageExecution, Some MessageAggregation}"
  using assms by (auto simp add: messageTemplate_def ascii_def)

text \<open>
  C8. A supervisor event of kind decomposition, assignment, execution or aggregation
  changes nothing: the whole state after the event, and so the transcript and the
  main-slot index, is the state before it, although ChatDisplay has a display block for
  each of the four kinds.
\<close>

theorem structured_kinds_leave_transcript:
  assumes "map_of e key_node = Some (JStr (ascii ''supervisor''))"
    and "map_of e key_type = Some (JStr k)"
    and "k = ascii ''decomposition'' \<or> k = ascii ''assignment'' \<or> k = ascii ''execution''
         \<or> k = ascii ''aggregation''"
  shows "processEvent e s = s
         \<and> messages (processEvent e s) = messages s
         \<and> currentMainMessageIndex (processEvent e s) = currentMainMessageIndex s
         \<and> messageTemplate e \<noteq> None"
proof -
  have k: "k \<noteq> ascii ''thinking''" "k \<noteq> ascii ''status''" "k \<noteq> ascii ''result''"
    "k \<noteq> ascii ''final''" "k \<noteq> ascii ''error''" "k \<noteq> ascii ''end''"
    "k \<noteq> ascii ''connection''"
    using assms(3) by (auto simp add: ascii_def)
  have "processEvent e s = s"
    using assms(2) k by (rule processEvent_other_kind)
  moreover have "messageTemplate e \<noteq> None"
    using messageTemplate_structured [OF assms(2) assms(3)] by auto
  ultimately show ?thesis by simp
qed

theorem structured_kinds_leave_transcript_witness:
  "map_of (event ''decomposition'' ''supervisor'' name_supervisor (ascii ''plan'')) key_node
     = Some (JStr (ascii ''supervisor''))
   \<and> map_of (event ''decomposition'' ''supervisor'' name_supervisor (ascii ''plan'')) key_type
     = Some (JStr (ascii ''decomposition''))
   \<and> processEvent (event ''decomposition'' ''supervisor'' name_supervisor (ascii ''plan''))
       (handleSubmit (ascii ''task'') (ascii ''now'') initial_state)
     = handleSubmit (ascii ''task'') (ascii ''now'') initial_state
   \<and> messageTemplate (event ''decomposition'' ''supervisor'' name_supervisor (ascii ''plan''))
     = Some MessageDecomposition"
proof -
  let ?e = "event ''decomposition'' ''supervisor'' name_supervisor (ascii ''plan'')"
  have n: "map_of ?e key_node = Some (JStr (ascii ''supervisor''))"
    by (simp add: event_def str_defs)
  have t: "map_of ?e key_type = Some (JStr (ascii ''decomposition''))"
    by (simp add: event_def str_defs)
  have m: "messageTemplate ?e = Some MessageDecomposition"
    by (simp add: messageTemplate_def event_def str_defs)
  from structured_kinds_leave_transcript [OF n t, of "handleSubmit (ascii ''task'') (ascii ''now'') initial_state"]
  show ?thesis using n t m by simp
qed

section \<open>Frames that fail the completeness check\<close>

text \<open>
  C6. A line whose payload, the text after the data prefix trimmed, does not end with a
  closing brace is dropped: whatever the parser would make of it, the state after the
  line is the state before it, so nothing reaches the transcript or the agents.
\<close>

theorem payload_without_brace_dropped:
  assumes "\<not> endsWith (trim (drop 6 line)) (ascii ''}'')"
  shows "processLine parse line s = s"
  using assms by (simp add: processLine_def)

theorem payload_without_brace_dropped_witness:
  "\<not> endsWith (trim (drop 6 (ascii ''data: {\"type\":\"status\"''))) (ascii ''}'')
   \<and> processLine (\<lambda>t. Some (event ''status'' ''supervisor'' name_supervisor (ascii ''go'')))
        (ascii ''data: {\"type\":\"status\"'') initial_state = initial_state
   \<and> processLine (\<lambda>t. Some (event ''status'' ''supervisor'' name_supervisor (ascii ''go'')))
        (ascii ''data: {\"type\":\"status\"}'') initial_state \<noteq> initial_state"
proof -
  have h: "\<not> endsWith (trim (drop 6 (ascii ''data: {\"type\":\"status\"''))) (ascii ''}'')"
    by (simp add: ascii_def trim_def is_js_whitespace_def endsWith_def)
  have c: "processLine (\<lambda>t. Some (event ''status'' ''supervisor'' name_supervisor (ascii ''go'')))
        (ascii ''data: {\"type\":\"status\"}'') initial_state \<noteq> initial_state"
    by (simp add: processLine_def trim_def is_js_whitespace_def startsWith_def run_defs str_defs)
  from payload_without_brace_dropped [OF h] c h show ?thesis by simp
qed

section \<open>What one event does to the transcript\<close>

lemma merge_into_open:
  assumes "currentMainMessageIndex s = int i" "i < length (messages s)"
    and "map_of (messages s ! i) key_message = Some (JStr m)"
  shows "merge_into sep addition s =
           Inr (s\<lparr>messages := (messages s)[i := AList.update key_message
                  (JStr (m @ (if endsWith m str_newline then [] else sep) @ addition))
                  (messages s ! i)]\<rparr>)"
  using assms by (simp add: merge_into_def)

lemma messages_updateAgentFromMessage [simp]:
  "messages (updateAgentFromMessage e s) = messages s"
  by (simp add: updateAgentFromMessage_def agent_branch_def end_branch_def Let_def
      split: json.splits option.splits)

lemma index_updateAgentFromMessage [simp]:
  "currentMainMessageIndex (updateAgentFromMessage e s) = currentMainMessageIndex s"
  by (simp add: updateAgentFromMessage_def agent_branch_def end_branch_def Let_def
      split: json.splits option.splits)

lemma messages_finish [simp]: "messages (finish e s) = messages s"
  by (simp add: finish_def updateAgentStatus_def)

lemma handleEvent_supervisor:
  assumes "map_of e key_node = Some (JStr (ascii ''supervisor''))"
    and "message_field e = Inr text" "aggregate e text s = Inr s1"
  shows "handleEvent e s = Inr (finish e (updateAgentFromMessage e s1))"
  using assms by (simp add: handleEvent_def)

lemma handleEvent_elsewhere:
  assumes "map_of e key_node \<noteq> Some (JStr (ascii ''supervisor''))"
    and "message_field e = Inr text"
  shows "handleEvent e s = Inr (finish e (updateAgentFromMessage e s))"
  using assms by (simp add: handleEvent_def)

lemma message_field_text:
  "map_of e key_message = Some (JStr t) \<Longrightarrow> message_field e = Inr (Text t)"
  by (simp add: message_field_def)

lemma processEvent_supervisor_messages:
  assumes "map_of e key_node = Some (JStr (ascii ''supervisor''))"
    and "message_field e = Inr text" "aggregate e text s = Inr s1"
  shows "messages (processEvent e s) = messages s1"
  using handleEvent_supervisor [OF assms] by (simp add: processEvent_def)

lemma aggregate_result_final_open:
  assumes "map_of e key_type = Some (JStr k)" "k = ascii ''result'' \<or> k = ascii ''final''"
    and "currentMainMessageIndex s = int i" "i < length (messages s)"
    and "map_of (messages s ! i) key_message = Some (JStr m)"
  shows "aggregate e text s =
           Inr (s\<lparr>messages := (messages s)[i := AList.update key_message
                  (JStr (m @ (if endsWith m str_newline then [] else str_double_newline)
                         @ to_string text))
                  (messages s ! i)]\<rparr>)"
proof -
  have "k \<noteq> ascii ''thinking''"
    using assms(2) by (auto simp add: ascii_def)
  moreover have "currentMainMessageIndex s \<noteq> - 1"
    using assms(3) by simp
  ultimately have "aggregate e text s = merge_into str_double_newline (to_string text) s"
    using assms(1,2) by (auto simp add: aggregate_def)
  then show ?thesis
    using merge_into_open [OF assms(3,4,5)] by simp
qed

lemma aggregate_result_final_closed:
  assumes "map_of e key_type = Some (JStr k)" "k = ascii ''result'' \<or> k = ascii ''final''"
    and "currentMainMessageIndex s = - 1"
  shows "aggregate e text s =
           Inr (s\<lparr>messages := messages s @ [e],
                  currentMainMessageIndex := int (length (messages s))\<rparr>)"
proof -
  have "k \<noteq> ascii ''thinking''"
    using assms(2) by (auto simp add: ascii_def)
  then show ?thesis
    using assms by (auto simp add: aggregate_def push_open_def)
qed

text \<open>
  C2. A result or final event of the supervisor, with text \<open>t\<close>: while a main slot is open
  at index \<open>i\<close> with accumulated text \<open>m\<close>, the entry at \<open>i\<close> gets the text \<open>m\<close>, then two
  newlines unless \<open>m\<close> ends in a newline (then nothing), then \<open>t\<close>, and no other entry
  changes; while no slot is open, the event is appended as a new entry, which the
  transcript step makes the main slot.
\<close>

theorem result_final_appended:
  assumes "map_of e key_node = Some (JStr (ascii ''supervisor''))"
    and "map_of e key_type = Some (JStr k)" "k = ascii ''result'' \<or> k = ascii ''final''"
    and "map_of e key_message = Some (JStr t)"
  shows "(currentMainMessageIndex s = int i \<and> i < length (messages s)
          \<and> map_of (messages s ! i) key_message = Some (JStr m) \<longrightarrow>
            messages (processEvent e s) =
              (messages s)[i := AList.update key_message
                 (JStr (m @ (if endsWith m str_newline then [] else str_double_newline) @ t))
                 (messages s ! i)]
            \<and> map_of (messages (processEvent e s) ! i) key_message =
                Some (JStr (m @ (if endsWith m str_newline then [] else str_double_newline) @ t)))
         \<and> (currentMainMessageIndex s = - 1 \<longrightarrow>
              aggregate e (Text t) s =
                Inr (s\<lparr>messages := messages s @ [e],
                       currentMainMessageIndex := int (length (messages s))\<rparr>)
              \<and> messages (processEvent e s) = messages s @ [e])"
proof (intro conjI impI)
  assume open_slot: "currentMainMessageIndex s = int i \<and> i < length (messages s)
          \<and> map_of (messages s ! i) key_message = Some (JStr m)"
  let ?new = "AList.update key_message
                 (JStr (m @ (if endsWith m str_newline then [] else str_double_newline) @ t))
                 (messages s ! i)"
  have agg: "aggregate e (Text t) s = Inr (s\<lparr>messages := (messages s)[i := ?new]\<rparr>)"
    using aggregate_result_final_open [OF assms(2,3), of s i m "Text t"] open_slot by simp
  show ms: "messages (processEvent e s) = (messages s)[i := ?new]"
    using processEvent_supervisor_messages [OF assms(1) message_field_text [OF assms(4)] agg]
    by simp
  show "map_of (messages (processEvent e s) ! i) key_message =
          Some (JStr (m @ (if endsWith m str_newline then [] else str_double_newline) @ t))"
    using open_slot by (simp add: ms update_conv)
next
  assume closed: "currentMainMessageIndex s = - 1"
  show agg: "aggregate e (Text t) s =
          Inr (s\<lparr>messages := messages s @ [e],
                 currentMainMessageIndex := int (length (messages s))\<rparr>)"
    using assms(2,3) closed by (rule aggregate_result_final_closed)
  show "messages (processEvent e s) = messages s @ [e]"
    using processEvent_supervisor_messages [OF assms(1) message_field_text [OF assms(4)] agg]
    by simp
qed

theorem result_final_appended_witness:
  "messages (processEvent (event ''result'' ''supervisor'' name_supervisor (ascii ''done''))
      (processEvent (event ''thinking'' ''supervisor'' name_supervisor (ascii ''hm''))
         (handleSubmit (ascii ''task'') (ascii ''now'') initial_state)))
   = [userMessage (ascii ''task'') (ascii ''now''),
      event ''thinking'' ''supervisor'' name_supervisor
        (ascii ''hm'' @ [0x0A, 0x0A] @ ascii ''done'')]
   \<and> messages (processEvent (event ''final'' ''supervisor'' name_supervisor (ascii ''done''))
        (handleSubmit (ascii ''task'') (ascii ''now'') initial_state))
   = [userMessage (ascii ''task'') (ascii ''now''),
      event ''final'' ''supervisor'' name_supervisor (ascii ''done'')]"
proof -
  let ?s0 = "handleSubmit (ascii ''task'') (ascii ''now'') initial_state"
  let ?s1 = "processEvent (event ''thinking'' ''supervisor'' name_supervisor (ascii ''hm'')) ?s0"
  let ?r = "event ''result'' ''supervisor'' name_supervisor (ascii ''done'')"
  let ?f = "event ''final'' ''supervisor'' name_supervisor (ascii ''done'')"
  have s0: "currentMainMessageIndex ?s0 = - 1"
    "messages ?s0 = [userMessage (ascii ''task'') (ascii ''now'')]"
    by (simp_all add: run_defs)
  have s1: "currentMainMessageIndex ?s1 = int 1 \<and> 1 < length (messages ?s1)
      \<and> map_of (messages ?s1 ! 1) key_message = Some (JStr (ascii ''hm''))"
    "messages ?s1 = [userMessage (ascii ''task'') (ascii ''now''),
        event ''thinking'' ''supervisor'' name_supervisor (ascii ''hm'')]"
    by (simp_all add: run_defs str_defs)
  have r: "map_of ?r key_node = Some (JStr (ascii ''supervisor''))"
    "map_of ?r key_type = Some (JStr (ascii ''result''))"
    "map_of ?r key_message = Some (JStr (ascii ''done''))"
    by (simp_all add: event_def str_defs)
  have f: "map_of ?f key_node = Some (JStr (ascii ''supervisor''))"
    "map_of ?f key_type = Some (JStr (ascii ''final''))"
    "map_of ?f key_message = Some (JStr (ascii ''done''))"
    by (simp_all add: event_def str_defs)
  have "messages (processEvent ?r ?s1) =
      (messages ?s1)[1 := AList.update key_message
         (JStr (ascii ''hm'' @ (if endsWith (ascii ''hm'') str_newline then [] else str_double_newline)
            @ ascii ''done'')) (messages ?s1 ! 1)]"
    using result_final_appended [OF r(1) r(2) _ r(3), of ?s1 1 "ascii ''hm''"] s1(1) by simp
  then have a: "messages (processEvent ?r ?s1) =
      [userMessage (ascii ''task'') (ascii ''now''),
       event ''thinking'' ''supervisor'' name_supervisor (ascii ''hm'' @ [0x0A, 0x0A] @ ascii ''done'')]"
    unfolding s1(2) by (simp add: event_def str_defs endsWith_def)
  have "messages (processEvent ?f ?s0) = messages ?s0 @ [?f]"
    using result_final_appended [OF f(1) f(2) _ f(3), of ?s0] s0(1) by simp
  then have b: "messages (processEvent ?f ?s0) = [userMessage (ascii ''task'') (ascii ''now''), ?f]"
    by (simp add: s0(2))
  from a b show ?thesis by simp
qed

section \<open>What one event does to the agents\<close>

lemma find_update_first:
  assumes "List.find p xs = Some a" "\<And>x. p (f x) = p x"
  shows "List.find p (update_first p f xs) = Some (f a)"
  using assms by (induction xs) (auto split: if_splits)

lemma aggregate_frame:
  assumes "aggregate e text s = Inr s1"
  shows "agentTeam s1 = agentTeam s \<and> currentActiveAgent s1 = currentActiveAgent s
         \<and> loading s1 = loading s \<and> error s1 = error s"
proof -
  have m: "\<And>sep addition. merge_into sep addition s = Inr s1 \<Longrightarrow> ?thesis"
    by (auto simp add: merge_into_def Let_def split: if_splits option.splits json.splits)
  from assms show ?thesis
    by (auto simp add: aggregate_def push_open_def Let_def split: if_splits dest: m)
qed

lemma agentTeam_updateAgentFromMessage_cong:
  assumes "agentTeam s1 = agentTeam s"
  shows "agentTeam (updateAgentFromMessage e s1) = agentTeam (updateAgentFromMessage e s)"
  using assms
  by (simp add: updateAgentFromMessage_def agent_branch_def end_branch_def Let_def
      split: json.splits option.splits)

lemma currentActiveAgent_updateAgentFromMessage_cong:
  assumes "agentTeam s1 = agentTeam s" "currentActiveAgent s1 = currentActiveAgent s"
  shows "currentActiveAgent (updateAgentFromMessage e s1)
         = currentActiveAgent (updateAgentFromMessage e s)"
  using assms
  by (simp add: updateAgentFromMessage_def agent_branch_def end_branch_def Let_def
      split: json.splits option.splits)

lemma agentTeam_finish:
  "agentTeam (finish e s) =
     (if map_of e key_type = Some (JStr (ascii ''end''))
         \<or> map_of e key_type = Some (JStr (ascii ''final''))
      then map (set_agent Idle) (agentTeam s) else agentTeam s)"
  by (simp add: finish_def updateAgentStatus_def)

lemma currentActiveAgent_finish [simp]:
  "currentActiveAgent (finish e s) = currentActiveAgent s"
  by (simp add: finish_def updateAgentStatus_def)

lemma handleEvent_cases:
  assumes "handleEvent e s = Inr s'"
  obtains tf s1 where "message_field e = Inr tf"
    and "s' = finish e (updateAgentFromMessage e s1)"
    and "agentTeam s1 = agentTeam s" "currentActiveAgent s1 = currentActiveAgent s"
    and "s1 = s \<or> (map_of e key_node = Some (JStr (ascii ''supervisor''))
                     \<and> aggregate e tf s = Inr s1)"
proof (cases "message_field e")
  case (Inl err)
  with assms show ?thesis by (simp add: handleEvent_def)
next
  case (Inr tf)
  show ?thesis
  proof (cases "map_of e key_node = Some (JStr (ascii ''supervisor''))")
    case True
    with assms Inr obtain s1 where s1: "aggregate e tf s = Inr s1"
      "s' = finish e (updateAgentFromMessage e s1)"
      by (auto simp add: handleEvent_def split: sum.splits)
    with aggregate_frame [OF s1(1)] Inr True that show ?thesis by blast
  next
    case False
    with assms Inr have "s' = finish e (updateAgentFromMessage e s)"
      by (simp add: handleEvent_def)
    with Inr that show ?thesis by blast
  qed
qed

lemma handleEvent_agents:
  assumes "handleEvent e s = Inr s'"
  shows "agentTeam s' = agentTeam (finish e (updateAgentFromMessage e s))"
    and "currentActiveAgent s' = currentActiveAgent (updateAgentFromMessage e s)"
proof -
  from assms obtain tf s1 where "message_field e = Inr tf"
    and s1: "s' = finish e (updateAgentFromMessage e s1)"
    "agentTeam s1 = agentTeam s" "currentActiveAgent s1 = currentActiveAgent s"
    by (rule handleEvent_cases)
  show "agentTeam s' = agentTeam (finish e (updateAgentFromMessage e s))"
    using agentTeam_updateAgentFromMessage_cong [OF s1(2), of e]
    by (simp add: s1(1) agentTeam_finish)
  show "currentActiveAgent s' = currentActiveAgent (updateAgentFromMessage e s)"
    using currentActiveAgent_updateAgentFromMessage_cong [OF s1(2,3), of e]
    by (simp add: s1(1))
qed

lemma updateAgentFromMessage_known:
  assumes "agentNameOf e = JStr n" "List.find (\<lambda>a. name a = n) (agentTeam s) = Some a"
  shows "updateAgentFromMessage e s = agent_branch e n s"
  using assms by (simp add: updateAgentFromMessage_def)

lemma agent_branch_result:
  assumes "map_of e key_type = Some (JStr (ascii ''result''))"
  shows "agent_branch e n s =
           s\<lparr>agentTeam := update_first (\<lambda>a. name a = n)
                (\<lambda>a. a\<lparr>status := Completed, active := False\<rparr>) (agentTeam s)\<rparr>"
  using assms by (simp add: agent_branch_def ascii_def)

lemma agent_branch_final:
  assumes "map_of e key_type = Some (JStr (ascii ''final''))"
  shows "agent_branch e n s =
           s\<lparr>agentTeam := update_first (\<lambda>a. name a = n)
                (\<lambda>a. a\<lparr>status := Completed, active := False\<rparr>) (agentTeam s),
             currentActiveAgent := []\<rparr>"
  using assms by (simp add: agent_branch_def ascii_def)

lemma list_all_set_agent_Idle:
  "list_all (\<lambda>a. status a = Idle \<and> \<not> active a) (map (set_agent Idle) xs)"
  by (induction xs) (simp_all add: set_agent_def)

text \<open>
  C4. The end event of a run resets every agent to idle and the main-slot index to none,
  but the active-agent indicator is cleared in the branch of \<open>updateAgentFromMessage\<close> that
  runs only when the event's agent is not in the team: after a status event of the
  supervisor agent, an end event that carries the same agent name leaves the indicator at
  that name.
\<close>

theorem end_event_known_agent_keeps_indicator:
  "handleEvent (event ''end'' ''supervisor'' name_supervisor (ascii ''bye''))
      (processEvent (event ''status'' ''supervisor'' name_supervisor (ascii ''go''))
         (handleSubmit (ascii ''task'') (ascii ''now'') initial_state))
   = Inr (processEvent (event ''end'' ''supervisor'' name_supervisor (ascii ''bye''))
      (processEvent (event ''status'' ''supervisor'' name_supervisor (ascii ''go''))
         (handleSubmit (ascii ''task'') (ascii ''now'') initial_state)))
   \<and> currentActiveAgent
       (processEvent (event ''end'' ''supervisor'' name_supervisor (ascii ''bye''))
          (processEvent (event ''status'' ''supervisor'' name_supervisor (ascii ''go''))
             (handleSubmit (ascii ''task'') (ascii ''now'') initial_state)))
     = name_supervisor
   \<and> name_supervisor \<noteq> []
   \<and> currentActiveAgent
       (processEvent (event ''end'' ''supervisor'' str_system (ascii ''bye''))
          (processEvent (event ''status'' ''supervisor'' name_supervisor (ascii ''go''))
             (handleSubmit (ascii ''task'') (ascii ''now'') initial_state)))
     = []"
  by (simp add: run_defs str_defs)

text \<open>
  C5. A result event whose agent is in the team leaves that agent completed and the
  active-agent indicator as it was. A final event does not leave its agent completed:
  \<open>updateAgentFromMessage\<close> marks the agent completed and clears the indicator, and the
  handler of end and final events then sets every agent of the team, this one too, to
  idle. As stated for final events the property fails, at a final event of the supervisor agent.
\<close>

theorem final_event_agent_not_completed:
  "handleEvent (event ''final'' ''supervisor'' name_supervisor (ascii ''answer''))
      (handleSubmit (ascii ''task'') (ascii ''now'') initial_state)
   = Inr (processEvent (event ''final'' ''supervisor'' name_supervisor (ascii ''answer''))
      (handleSubmit (ascii ''task'') (ascii ''now'') initial_state))
   \<and> map_option status (List.find (\<lambda>a. name a = name_supervisor)
        (agentTeam (processEvent (event ''final'' ''supervisor'' name_supervisor (ascii ''answer''))
           (handleSubmit (ascii ''task'') (ascii ''now'') initial_state))))
     = Some Idle
   \<and> Idle \<noteq> Completed"
  by (simp add: run_defs str_defs)

text \<open>
  C5, amended. For an event that is processed without an exception and whose agent name
  is that of an agent of the team: after a result event the agent is completed and the
  active-agent indicator is what it was; on a final event \<open>updateAgentFromMessage\<close> marks
  the agent completed, and after the event every agent of the team is idle and inactive
  and the indicator is none.
\<close>

theorem result_completes_final_resets:
  assumes "handleEvent e s = Inr s'"
    and "agentNameOf e = JStr n"
    and "List.find (\<lambda>a. name a = n) (agentTeam s) = Some a"
  shows "(map_of e key_type = Some (JStr (ascii ''result'')) \<longrightarrow>
            map_option status (List.find (\<lambda>a. name a = n) (agentTeam s')) = Some Completed
            \<and> currentActiveAgent s' = currentActiveAgent s)
         \<and> (map_of e key_type = Some (JStr (ascii ''final'')) \<longrightarrow>
              map_option status (List.find (\<lambda>a. name a = n)
                 (agentTeam (updateAgentFromMessage e s))) = Some Completed
              \<and> list_all (\<lambda>a. status a = Idle \<and> \<not> active a) (agentTeam s')
              \<and> currentActiveAgent s' = [])"
proof (intro conjI impI)
  note known = updateAgentFromMessage_known [OF assms(2,3)]
  note found = find_update_first [OF assms(3),
      of "\<lambda>a. a\<lparr>status := Completed, active := False\<rparr>"]
  {
    assume ty: "map_of e key_type = Some (JStr (ascii ''result''))"
    have "agentTeam s' = update_first (\<lambda>a. name a = n)
            (\<lambda>a. a\<lparr>status := Completed, active := False\<rparr>) (agentTeam s)"
      using handleEvent_agents(1) [OF assms(1)] ty
      by (simp add: known agent_branch_result agentTeam_finish ascii_def)
    then show "map_option status (List.find (\<lambda>a. name a = n) (agentTeam s')) = Some Completed"
      using found by simp
    show "currentActiveAgent s' = currentActiveAgent s"
      using handleEvent_agents(2) [OF assms(1)] ty
      by (simp add: known agent_branch_result)
  }
  {
    assume ty: "map_of e key_type = Some (JStr (ascii ''final''))"
    show "map_option status (List.find (\<lambda>a. name a = n)
            (agentTeam (updateAgentFromMessage e s))) = Some Completed"
      using found ty by (simp add: known agent_branch_final)
    have "agentTeam s' = map (set_agent Idle) (agentTeam (updateAgentFromMessage e s))"
      using handleEvent_agents(1) [OF assms(1)] ty by (simp add: agentTeam_finish)
    then show "list_all (\<lambda>a. status a = Idle \<and> \<not> active a) (agentTeam s')"
      by (simp add: list_all_set_agent_Idle)
    show "currentActiveAgent s' = []"
      using handleEvent_agents(2) [OF assms(1)] ty
      by (simp add: known agent_branch_final)
  }
qed

theorem result_completes_final_resets_witness:
  "map_option status (List.find (\<lambda>a. name a = name_supervisor)
      (agentTeam (processEvent (event ''result'' ''supervisor'' name_supervisor (ascii ''r''))
         (handleSubmit (ascii ''task'') (ascii ''now'') initial_state)))) = Some Completed
   \<and> currentActiveAgent (processEvent (event ''result'' ''supervisor'' name_supervisor (ascii ''r''))
         (handleSubmit (ascii ''task'') (ascii ''now'') initial_state)) = []
   \<and> list_all (\<lambda>a. status a = Idle \<and> \<not> active a)
        (agentTeam (processEvent (event ''final'' ''supervisor'' name_supervisor (ascii ''r''))
           (handleSubmit (ascii ''task'') (ascii ''now'') initial_state)))"
proof -
  let ?s = "handleSubmit (ascii ''task'') (ascii ''now'') initial_state"
  let ?r = "event ''result'' ''supervisor'' name_supervisor (ascii ''r'')"
  let ?f = "event ''final'' ''supervisor'' name_supervisor (ascii ''r'')"
  have r: "handleEvent ?r ?s = Inr (processEvent ?r ?s)"
    "agentNameOf ?r = JStr name_supervisor"
    "map_of ?r key_type = Some (JStr (ascii ''result''))"
    by (simp_all add: run_defs str_defs)
  have f: "handleEvent ?f ?s = Inr (processEvent ?f ?s)"
    "agentNameOf ?f = JStr name_supervisor"
    "map_of ?f key_type = Some (JStr (ascii ''final''))"
    by (simp_all add: run_defs str_defs)
  have a: "List.find (\<lambda>a. name a = name_supervisor) (agentTeam ?s) = Some (hd (agentTeam ?s))"
    "currentActiveAgent ?s = []"
    by (simp_all add: run_defs str_defs)
  from result_completes_final_resets [OF r(1) r(2) a(1)] r(3)
    result_completes_final_resets [OF f(1) f(2) a(1)] f(3) a(2)
  show ?thesis by simp
qed

section \<open>Events of other nodes\<close>

lemma updateAgentFromMessage_fields:
  assumes "map_of e' key_type = map_of e key_type" "map_of e' key_agent = map_of e key_agent"
  shows "updateAgentFromMessage e' s = updateAgentFromMessage e s"
proof -
  have "end_branch e' s = end_branch e s"
    by (simp add: end_branch_def assms)
  moreover have "\<And>n. agent_branch e' n s = agent_branch e n s"
    by (simp add: agent_branch_def assms)
  ultimately show ?thesis
    by (simp add: updateAgentFromMessage_def agentNameOf_def assms
        split: json.splits option.splits)
qed

lemma finish_fields:
  assumes "map_of e' key_type = map_of e key_type"
  shows "finish e' s = finish e s"
  using assms by (simp add: finish_def)

lemma map_of_update_node:
  "map_of (AList.update key_node v e) key_type = map_of e key_type"
  "map_of (AList.update key_node v e) key_agent = map_of e key_agent"
  by (simp_all add: update_conv str_defs)

text \<open>
  C9. An event whose node is not the supervisor, and whose message the logging line
  accepts (a string, null or absent), never raises and never reaches the transcript, and
  the agent state after it is that of \<open>updateAgentFromMessage\<close> followed by the handler of
  end and final events, whatever the node: the same event with the node set to the
  supervisor, once processed, leaves the same team and the same active-agent indicator.
\<close>

theorem agents_updated_for_any_node:
  assumes "map_of e key_node \<noteq> Some (JStr (ascii ''supervisor''))"
    and "message_field e = Inr tf"
  shows "handleEvent e s = Inr (finish e (updateAgentFromMessage e s))
         \<and> processEvent e s = finish e (updateAgentFromMessage e s)
         \<and> messages (processEvent e s) = messages s
         \<and> (handleEvent (AList.update key_node (JStr (ascii ''supervisor'')) e) s = Inr s' \<longrightarrow>
              agentTeam (processEvent e s) = agentTeam s'
              \<and> currentActiveAgent (processEvent e s) = currentActiveAgent s')"
proof -
  let ?e' = "AList.update key_node (JStr (ascii ''supervisor'')) e"
  have h: "handleEvent e s = Inr (finish e (updateAgentFromMessage e s))"
    using assms by (rule handleEvent_elsewhere)
  then have p: "processEvent e s = finish e (updateAgentFromMessage e s)"
    by (simp add: processEvent_def)
  have u: "updateAgentFromMessage ?e' s = updateAgentFromMessage e s"
    by (rule updateAgentFromMessage_fields) (rule map_of_update_node)+
  have f: "\<And>x. finish ?e' x = finish e x"
    by (rule finish_fields) (rule map_of_update_node)
  have "agentTeam (processEvent e s) = agentTeam s'
        \<and> currentActiveAgent (processEvent e s) = currentActiveAgent s'"
    if "handleEvent ?e' s = Inr s'"
    using handleEvent_agents [OF that] by (simp add: p u f)
  with h p show ?thesis by simp
qed

theorem agents_updated_for_any_node_witness:
  "processEvent (event ''status'' ''research_team'' [0x7814, 0x7A76, 0x56E2, 0x961F] (ascii ''go''))
      initial_state
   = initial_state
       \<lparr>currentActiveAgent := [0x7814, 0x7A76, 0x56E2, 0x961F],
        agentTeam := (agentTeam initial_state)
          [1 := (agentTeam initial_state ! 1)\<lparr>status := Active, active := True\<rparr>]\<rparr>
   \<and> agentTeam (processEvent
        (event ''status'' ''supervisor'' [0x7814, 0x7A76, 0x56E2, 0x961F] (ascii ''go''))
        initial_state)
     = agentTeam (processEvent
        (event ''status'' ''research_team'' [0x7814, 0x7A76, 0x56E2, 0x961F] (ascii ''go''))
        initial_state)"
proof -
  let ?e = "event ''status'' ''research_team'' [0x7814, 0x7A76, 0x56E2, 0x961F] (ascii ''go'')"
  let ?e' = "event ''status'' ''supervisor'' [0x7814, 0x7A76, 0x56E2, 0x961F] (ascii ''go'')"
  have n: "map_of ?e key_node \<noteq> Some (JStr (ascii ''supervisor''))"
    by (simp add: event_def str_defs)
  have m: "message_field ?e = Inr (Text (ascii ''go''))"
    by (simp add: message_field_def event_def str_defs)
  have t: "AList.update key_node (JStr (ascii ''supervisor'')) ?e = ?e'"
    by (simp add: event_def str_defs)
  have h: "handleEvent ?e' initial_state = Inr (processEvent ?e' initial_state)"
    by (simp add: run_defs str_defs)
  have v: "finish ?e (updateAgentFromMessage ?e initial_state)
      = initial_state
         \<lparr>currentActiveAgent := [0x7814, 0x7A76, 0x56E2, 0x961F],
          agentTeam := (agentTeam initial_state)
            [1 := (agentTeam initial_state ! 1)\<lparr>status := Active, active := True\<rparr>]\<rparr>"
    by (simp add: run_defs str_defs)
  note c9 = agents_updated_for_any_node [OF n m, of initial_state "processEvent ?e' initial_state",
      unfolded t]
  from c9 have a: "processEvent ?e initial_state = finish ?e (updateAgentFromMessage ?e initial_state)"
    by blast
  from c9 h have b: "agentTeam (processEvent ?e initial_state) = agentTeam (processEvent ?e' initial_state)"
    by blast
  show ?thesis
  proof (intro conjI)
    show "processEvent ?e initial_state
      = initial_state
         \<lparr>currentActiveAgent := [0x7814, 0x7A76, 0x56E2, 0x961F],
          agentTeam := (agentTeam initial_state)
            [1 := (agentTeam initial_state ! 1)\<lparr>status := Active, active := True\<rparr>]\<rparr>"
      using a v by (rule trans)
    show "agentTeam (processEvent ?e' initial_state) = agentTeam (processEvent ?e initial_state)"
      using b by (rule sym)
  qed
qed

section \<open>Entries keep every property but the message\<close>

lemma merge_into_fields:
  assumes "merge_into sep addition s = Inr s1" "j < length (messages s)" "k \<noteq> key_message"
  shows "length (messages s1) = length (messages s)
         \<and> map_of (messages s1 ! j) k = map_of (messages s ! j) k"
  using assms
  by (auto simp add: merge_into_def Let_def update_conv nth_list_update
      split: if_splits option.splits json.splits)

lemma aggregate_fields:
  assumes "aggregate e tf s = Inr s1" "j < length (messages s)" "k \<noteq> key_message"
  shows "j < length (messages s1) \<and> map_of (messages s1 ! j) k = map_of (messages s ! j) k"
proof -
  have m: "\<And>sep addition. merge_into sep addition s = Inr s1 \<Longrightarrow> ?thesis"
    using merge_into_fields [OF _ assms(2,3)] assms(2) by simp
  from assms show ?thesis
    by (auto simp add: aggregate_def push_open_def Let_def nth_append split: if_splits dest: m)
qed

lemma processEvent_fields:
  assumes "j < length (messages s)" "k \<noteq> key_message"
  shows "j < length (messages (processEvent e s))
         \<and> map_of (messages (processEvent e s) ! j) k = map_of (messages s ! j) k"
proof (cases "handleEvent e s")
  case (Inl err)
  with assms show ?thesis by (simp add: processEvent_def)
next
  case (Inr s')
  then obtain tf s1 where "message_field e = Inr tf"
    and s': "s' = finish e (updateAgentFromMessage e s1)"
    and s1: "s1 = s \<or> (map_of e key_node = Some (JStr (ascii ''supervisor''))
                          \<and> aggregate e tf s = Inr s1)"
    by (rule handleEvent_cases)
  from s1 have "j < length (messages s1) \<and> map_of (messages s1 ! j) k = map_of (messages s ! j) k"
    using assms aggregate_fields by blast
  with Inr s' show ?thesis by (simp add: processEvent_def)
qed

lemma run_events_fields:
  assumes "j < length (messages s)" "k \<noteq> key_message"
  shows "j < length (messages (run_events es s))
         \<and> map_of (messages (run_events es s) ! j) k = map_of (messages s ! j) k"
  using assms(1)
proof (induction es arbitrary: s)
  case Nil
  then show ?case by (simp add: run_events_def)
next
  case (Cons e es)
  from processEvent_fields [OF Cons.prems assms(2), of e]
  have "j < length (messages (processEvent e s))"
    and eq: "map_of (messages (processEvent e s) ! j) k = map_of (messages s ! j) k"
    by simp_all
  from Cons.IH [OF this(1)] eq show ?case
    by (simp add: run_events_def)
qed

lemma aggregate_opens:
  assumes "map_of e key_type = Some (JStr k)"
    and "k = ascii ''thinking'' \<or> k = ascii ''status'' \<or> k = ascii ''result''
         \<or> k = ascii ''final'' \<or> k = ascii ''error''"
    and "currentMainMessageIndex s = - 1"
  shows "aggregate e tf s = Inr (push_open e s)"
  using assms by (auto simp add: aggregate_def Let_def ascii_def)

text \<open>
  C10. A merge leaves every property of the main-slot entry but \<open>message\<close> as it was:
  kind, agent, timestamp, subtasks, current task. So the entry that an event \<open>opener\<close> opened
  keeps the properties of that event through every later event of the stream, whatever is
  merged into it.
\<close>

theorem merge_changes_message_only:
  assumes "k \<noteq> key_message"
  shows "(aggregate e tf s = Inr s1 \<and> currentMainMessageIndex s = int i
          \<and> i < length (messages s) \<longrightarrow>
            map_of (messages s1 ! i) k = map_of (messages s ! i) k)
         \<and> (map_of opener key_node = Some (JStr (ascii ''supervisor''))
             \<and> map_of opener key_type = Some (JStr kind)
             \<and> (kind = ascii ''thinking'' \<or> kind = ascii ''status'' \<or> kind = ascii ''result''
                 \<or> kind = ascii ''final'' \<or> kind = ascii ''error'')
             \<and> message_field opener = Inr otf
             \<and> currentMainMessageIndex s = - 1 \<longrightarrow>
               messages (processEvent opener s) = messages s @ [opener]
               \<and> map_of (messages (run_events es (processEvent opener s)) ! length (messages s)) k
                   = map_of opener k)"
proof (intro conjI impI)
  assume "aggregate e tf s = Inr s1 \<and> currentMainMessageIndex s = int i
          \<and> i < length (messages s)"
  then show "map_of (messages s1 ! i) k = map_of (messages s ! i) k"
    using aggregate_fields [of e tf s s1 i k] assms by simp
next
  assume h: "map_of opener key_node = Some (JStr (ascii ''supervisor''))
             \<and> map_of opener key_type = Some (JStr kind)
             \<and> (kind = ascii ''thinking'' \<or> kind = ascii ''status'' \<or> kind = ascii ''result''
                 \<or> kind = ascii ''final'' \<or> kind = ascii ''error'')
             \<and> message_field opener = Inr otf
             \<and> currentMainMessageIndex s = - 1"
  then have "aggregate opener otf s = Inr (push_open opener s)"
    using aggregate_opens [of opener kind s otf] by blast
  with h have "messages (processEvent opener s) = messages (push_open opener s)"
    using processEvent_supervisor_messages [of opener otf s "push_open opener s"] by blast
  then show ms: "messages (processEvent opener s) = messages s @ [opener]"
    by (simp add: push_open_def)
  then have "length (messages s) < length (messages (processEvent opener s))"
    by simp
  from run_events_fields [OF this assms, of es]
  show "map_of (messages (run_events es (processEvent opener s)) ! length (messages s)) k
          = map_of opener k"
    by (simp add: ms)
qed

theorem merge_changes_message_only_witness:
  "key_timestamp \<noteq> key_message
   \<and> map_of (messages (run_events
        [event ''thinking'' ''supervisor'' name_supervisor (ascii ''more''),
         event ''result'' ''supervisor'' str_system (ascii ''done'')]
        (processEvent
           (event ''thinking'' ''supervisor'' name_supervisor (ascii ''hm'')
              @ [(key_timestamp, JStr (ascii ''t0''))])
           (handleSubmit (ascii ''task'') (ascii ''now'') initial_state))) ! 1) key_timestamp
     = Some (JStr (ascii ''t0''))
   \<and> map_of (messages (run_events
        [event ''thinking'' ''supervisor'' name_supervisor (ascii ''more''),
         event ''result'' ''supervisor'' str_system (ascii ''done'')]
        (processEvent
           (event ''thinking'' ''supervisor'' name_supervisor (ascii ''hm'')
              @ [(key_timestamp, JStr (ascii ''t0''))])
           (handleSubmit (ascii ''task'') (ascii ''now'') initial_state))) ! 1) key_message
     = Some (JStr (ascii ''hm'' @ [0x0A] @ ascii ''more'' @ [0x0A, 0x0A] @ ascii ''done''))"
proof -
  let ?s = "handleSubmit (ascii ''task'') (ascii ''now'') initial_state"
  let ?e0 = "event ''thinking'' ''supervisor'' name_supervisor (ascii ''hm'')
              @ [(key_timestamp, JStr (ascii ''t0''))]"
  let ?es = "[event ''thinking'' ''supervisor'' name_supervisor (ascii ''more''),
         event ''result'' ''supervisor'' str_system (ascii ''done'')]"
  have k: "key_timestamp \<noteq> key_message"
    by (simp add: str_defs)
  have h: "map_of ?e0 key_node = Some (JStr (ascii ''supervisor''))
      \<and> map_of ?e0 key_type = Some (JStr (ascii ''thinking''))
      \<and> (ascii ''thinking'' = ascii ''thinking'' \<or> ascii ''thinking'' = ascii ''status''
          \<or> ascii ''thinking'' = ascii ''result'' \<or> ascii ''thinking'' = ascii ''final''
          \<or> ascii ''thinking'' = ascii ''error'')
      \<and> message_field ?e0 = Inr (Text (ascii ''hm''))
      \<and> currentMainMessageIndex ?s = - 1"
    by (simp add: run_defs str_defs)
  have l: "length (messages ?s) = 1" "map_of ?e0 key_timestamp = Some (JStr (ascii ''t0''))"
    by (simp_all add: run_defs str_defs)
  have m: "map_of (messages (run_events ?es (processEvent ?e0 ?s)) ! 1) key_message
     = Some (JStr (ascii ''hm'' @ [0x0A] @ ascii ''more'' @ [0x0A, 0x0A] @ ascii ''done''))"
    by (simp add: run_events_def run_defs str_defs)
  from merge_changes_message_only [OF k, where opener = "?e0" and kind = "ascii ''thinking''"
      and otf = "Text (ascii ''hm'')" and s = "?s" and es = "?es"] h
  have "map_of (messages (run_events ?es (processEvent ?e0 ?s)) ! length (messages ?s)) key_timestamp
          = map_of ?e0 key_timestamp"
    by blast
  with k l m show ?thesis by simp
qed

section \<open>A sequence of thinking events\<close>

lemma processEvent_thinking_open:
  assumes "map_of e key_node = Some (JStr (ascii ''supervisor''))"
    and "map_of e key_type = Some (JStr (ascii ''thinking''))"
    and "map_of e key_message = Some (JStr f)"
    and "currentMainMessageIndex s = int i" "i < length (messages s)"
    and "map_of (messages s ! i) key_message = Some (JStr m)"
  shows "processEvent e s =
           s\<lparr>messages := (messages s)[i := AList.update key_message
              (JStr (m @ (if endsWith m str_newline then [] else str_newline) @ f))
              (messages s ! i)]\<rparr>"
proof -
  let ?s1 = "s\<lparr>messages := (messages s)[i := AList.update key_message
              (JStr (m @ (if endsWith m str_newline then [] else str_newline) @ f))
              (messages s ! i)]\<rparr>"
  have "currentMainMessageIndex s \<noteq> - 1"
    using assms(4) by simp
  then have "aggregate e (Text f) s = merge_into str_newline f s"
    using assms(2) by (simp add: aggregate_def)
  then have "aggregate e (Text f) s = Inr ?s1"
    using merge_into_open [OF assms(4,5,6)] by simp
  then have "handleEvent e s = Inr (finish e (updateAgentFromMessage e ?s1))"
    using handleEvent_supervisor [OF assms(1) message_field_text [OF assms(3)]] by simp
  moreover have "updateAgentFromMessage e ?s1 = ?s1"
    using assms(2) by (rule updateAgentFromMessage_other_kind) (simp_all add: ascii_def)
  moreover have "finish e ?s1 = ?s1"
    using assms(2) by (rule finish_other_kind) (simp_all add: ascii_def)
  ultimately show ?thesis
    by (simp add: processEvent_def)
qed

lemma processEvent_thinking_closed:
  assumes "map_of e key_node = Some (JStr (ascii ''supervisor''))"
    and "map_of e key_type = Some (JStr (ascii ''thinking''))"
    and "map_of e key_message = Some (JStr f)"
    and "currentMainMessageIndex s = - 1"
  shows "processEvent e s = push_open e s"
proof -
  have "aggregate e (Text f) s = Inr (push_open e s)"
    using assms(2,4) by (simp add: aggregate_def)
  then have "handleEvent e s = Inr (finish e (updateAgentFromMessage e (push_open e s)))"
    using handleEvent_supervisor [OF assms(1) message_field_text [OF assms(3)]] by simp
  moreover have "updateAgentFromMessage e (push_open e s) = push_open e s"
    using assms(2) by (rule updateAgentFromMessage_other_kind) (simp_all add: ascii_def)
  moreover have "finish e (push_open e s) = push_open e s"
    using assms(2) by (rule finish_other_kind) (simp_all add: ascii_def)
  ultimately show ?thesis
    by (simp add: processEvent_def)
qed

lemma endsWith_append_nonempty:
  assumes "p = [] \<or> f \<noteq> []"
  shows "endsWith (p @ f) str_newline = endsWith f str_newline"
  using assms by (auto simp add: str_newline_def endsWith_single)

lemma run_thinking_joined:
  assumes "list_all2 (\<lambda>e f. map_of e key_node = Some (JStr (ascii ''supervisor''))
             \<and> map_of e key_type = Some (JStr (ascii ''thinking''))
             \<and> map_of e key_message = Some (JStr f)) es fs"
    and "list_all (\<lambda>f. f \<noteq> []) fs"
    and "currentMainMessageIndex s = int i" "i < length (messages s)"
    and "map_of (messages s ! i) key_message = Some (JStr (p @ f0))"
    and "p = [] \<or> f0 \<noteq> []"
  shows "run_events es s =
           s\<lparr>messages := (messages s)[i := AList.update key_message
              (JStr (p @ joined (f0 # fs))) (messages s ! i)]\<rparr>"
  using assms
proof (induction es arbitrary: fs s p f0)
  case Nil
  then have "fs = []" by simp
  moreover have "AList.update key_message (JStr (p @ f0)) (messages s ! i) = messages s ! i"
    using Nil.prems(5) by (rule update_triv)
  ultimately show ?case
    by (simp add: run_events_def)
next
  case (Cons e es)
  from Cons.prems(1) obtain g gs where fs: "fs = g # gs"
    and e: "map_of e key_node = Some (JStr (ascii ''supervisor''))"
      "map_of e key_type = Some (JStr (ascii ''thinking''))"
      "map_of e key_message = Some (JStr g)"
    and rest: "list_all2 (\<lambda>e f. map_of e key_node = Some (JStr (ascii ''supervisor''))
             \<and> map_of e key_type = Some (JStr (ascii ''thinking''))
             \<and> map_of e key_message = Some (JStr f)) es gs"
    by (auto simp add: list_all2_Cons1)
  from Cons.prems(2) fs have g: "g \<noteq> []" and gs: "list_all (\<lambda>f. f \<noteq> []) gs"
    by simp_all
  let ?sep = "if endsWith f0 str_newline then [] else str_newline"
  let ?entry = "AList.update key_message (JStr ((p @ f0 @ ?sep) @ g)) (messages s ! i)"
  let ?s1 = "s\<lparr>messages := (messages s)[i := ?entry]\<rparr>"
  have step: "processEvent e s = ?s1"
    using processEvent_thinking_open [OF e Cons.prems(3,4,5)]
      endsWith_append_nonempty [OF Cons.prems(6)] by simp
  have "run_events es ?s1 =
          ?s1\<lparr>messages := (messages ?s1)[i := AList.update key_message
              (JStr ((p @ f0 @ ?sep) @ joined (g # gs))) (messages ?s1 ! i)]\<rparr>"
  proof (rule Cons.IH [OF rest gs])
    show "currentMainMessageIndex ?s1 = int i"
      using Cons.prems(3) by simp
    show "i < length (messages ?s1)"
      using Cons.prems(4) by simp
    show "map_of (messages ?s1 ! i) key_message = Some (JStr ((p @ f0 @ ?sep) @ g))"
      using Cons.prems(4) by (simp add: update_conv)
    show "p @ f0 @ ?sep = [] \<or> g \<noteq> []"
      using g by simp
  qed
  then have "run_events es ?s1 =
          s\<lparr>messages := (messages s)[i := AList.update key_message
              (JStr (p @ joined (f0 # g # gs))) (messages s ! i)]\<rparr>"
    using Cons.prems(4) by simp
  then show ?case
    by (simp add: run_events_def step fs)
qed

lemma thinking_run_from_closed:
  assumes "currentMainMessageIndex s = - 1"
    and "list_all2 (\<lambda>e f. map_of e key_node = Some (JStr (ascii ''supervisor''))
             \<and> map_of e key_type = Some (JStr (ascii ''thinking''))
             \<and> map_of e key_message = Some (JStr f)) (e0 # es) (f0 # fs)"
    and "list_all (\<lambda>f. f \<noteq> []) fs"
  shows "run_events (e0 # es) s =
           s\<lparr>messages := messages s @ [AList.update key_message (JStr (joined (f0 # fs))) e0],
             currentMainMessageIndex := int (length (messages s))\<rparr>"
proof -
  from assms(2) have e0: "map_of e0 key_node = Some (JStr (ascii ''supervisor''))"
      "map_of e0 key_type = Some (JStr (ascii ''thinking''))"
      "map_of e0 key_message = Some (JStr f0)"
    and rest: "list_all2 (\<lambda>e f. map_of e key_node = Some (JStr (ascii ''supervisor''))
             \<and> map_of e key_type = Some (JStr (ascii ''thinking''))
             \<and> map_of e key_message = Some (JStr f)) es fs"
    by simp_all
  let ?s1 = "push_open e0 s"
  have first: "processEvent e0 s = ?s1"
    using e0 assms(1) by (rule processEvent_thinking_closed)
  have "run_events es ?s1 =
          ?s1\<lparr>messages := (messages ?s1)[length (messages s) := AList.update key_message
              (JStr ([] @ joined (f0 # fs))) (messages ?s1 ! length (messages s))]\<rparr>"
  proof (rule run_thinking_joined [OF rest assms(3)])
    show "currentMainMessageIndex ?s1 = int (length (messages s))"
      by (simp add: push_open_def)
    show "length (messages s) < length (messages ?s1)"
      by (simp add: push_open_def)
    show "map_of (messages ?s1 ! length (messages s)) key_message = Some (JStr ([] @ f0))"
      using e0(3) by (simp add: push_open_def)
    show "[] = [] \<or> f0 \<noteq> []"
      by simp
  qed
  then have "run_events es ?s1 =
          s\<lparr>messages := messages s @ [AList.update key_message (JStr (joined (f0 # fs))) e0],
            currentMainMessageIndex := int (length (messages s))\<rparr>"
    by (simp add: push_open_def)
  then show ?thesis
    by (simp add: run_events_def first)
qed

section \<open>The two lines of the example\<close>

lemma processChunk_one_line:
  assumes "split 0x0A line = [line]"
  shows "processChunk parse (line @ [0x0A]) ([], s) = ([], processLine parse line s)"
proof -
  have "split 0x0A (line @ [0x0A]) = [line, []]"
    using assms by (induction line) (auto split: list.splits if_splits)
  then show ?thesis
    by (simp add: processChunk_def)
qed

lemma thinking_line_single:
  "split 0x0A (thinking_line ''x'') = [thinking_line ''x'']"
  "split 0x0A (thinking_line ''y'') = [thinking_line ''y'']"
  by (simp_all add: thinking_line_def ascii_def)

lemma processLine_thinking_line:
  assumes "parse (trim (drop 6 (thinking_line m))) = Some parsedData"
    and "m = ''x'' \<or> m = ''y''"
  shows "processLine parse (thinking_line m) s = processEvent parsedData s"
proof -
  have "trim (thinking_line m) \<noteq> [] \<and> startsWith (thinking_line m) (ascii ''data: '')
        \<and> endsWith (trim (drop 6 (thinking_line m))) (ascii ''}'')"
    using assms(2)
    by (auto simp add: thinking_line_def ascii_def trim_def is_js_whitespace_def
        startsWith_def endsWith_def)
  then show ?thesis
    using assms(1) by (simp add: processLine_def)
qed

lemma example_run:
  assumes "parse (trim (drop 6 (thinking_line ''x'')))
             = Some (event ''thinking'' ''supervisor'' (ascii ''A'') (ascii ''x''))"
    and "parse (trim (drop 6 (thinking_line ''y'')))
             = Some (event ''thinking'' ''supervisor'' (ascii ''A'') (ascii ''y''))"
  shows "filteredMessages (messages (readStream parse
            [thinking_line ''x'' @ [0x0A], thinking_line ''y'' @ [0x0A]]
            (handleSubmit task now s)))
         = [event ''thinking'' ''supervisor'' (ascii ''A'') (ascii ''x'' @ [0x0A] @ ascii ''y'')]"
proof -
  let ?x = "event ''thinking'' ''supervisor'' (ascii ''A'') (ascii ''x'')"
  let ?y = "event ''thinking'' ''supervisor'' (ascii ''A'') (ascii ''y'')"
  let ?s0 = "(handleSubmit task now s)\<lparr>loading := True\<rparr>"
  have "readStream parse [thinking_line ''x'' @ [0x0A], thinking_line ''y'' @ [0x0A]]
          (handleSubmit task now s)
        = processLine parse (thinking_line ''y'') (processLine parse (thinking_line ''x'') ?s0)"
    by (simp add: readStream_def processChunk_one_line thinking_line_single)
  also have "\<dots> = run_events [?x, ?y] ?s0"
    using processLine_thinking_line [of parse "''x''", OF assms(1)]
      processLine_thinking_line [of parse "''y''", OF assms(2)]
    by (simp add: run_events_def)
  also have "\<dots> = ?s0\<lparr>messages := messages ?s0
                 @ [AList.update key_message (JStr (joined [ascii ''x'', ascii ''y''])) ?x],
               currentMainMessageIndex := int (length (messages ?s0))\<rparr>"
    by (rule thinking_run_from_closed)
      (simp_all add: handleSubmit_def updateAgentStatus_def event_def str_defs)
  finally show ?thesis
    by (simp add: filteredMessages_def handleSubmit_def updateAgentStatus_def userMessage_def
        event_def str_defs endsWith_def)
qed

text \<open>
  C1. The property as the specification states it fails at the fragments \<open>a\<close>, the empty string, and newline
  followed by \<open>b\<close>. The empty fragment is merged with a separating newline and leaves the
  text ending in a newline, so the third fragment is appended with no separator: the slot
  holds \<open>a\<close>, two newlines, \<open>b\<close>. The three fragments joined by single newlines are \<open>a\<close>,
  three newlines, \<open>b\<close>; and the text that results has a blank line, made of the inserted
  newline and of the fragment's own.
\<close>

theorem empty_fragment_not_joined:
  "map_of (last (messages (run_events
       [event ''thinking'' ''supervisor'' (ascii ''A'') (ascii ''a''),
        event ''thinking'' ''supervisor'' (ascii ''A'') [],
        event ''thinking'' ''supervisor'' (ascii ''A'') ([0x0A] @ ascii ''b'')]
       (handleSubmit (ascii ''task'') (ascii ''now'') initial_state)))) key_message
     = Some (JStr (ascii ''a'' @ [0x0A, 0x0A] @ ascii ''b''))
   \<and> joined [ascii ''a'', [], [0x0A] @ ascii ''b'']
     = ascii ''a'' @ [0x0A, 0x0A, 0x0A] @ ascii ''b''
   \<and> map_of (last (messages (run_events
       [event ''thinking'' ''supervisor'' (ascii ''A'') (ascii ''a''),
        event ''thinking'' ''supervisor'' (ascii ''A'') [],
        event ''thinking'' ''supervisor'' (ascii ''A'') ([0x0A] @ ascii ''b'')]
       (handleSubmit (ascii ''task'') (ascii ''now'') initial_state)))) key_message
     \<noteq> Some (JStr (joined [ascii ''a'', [], [0x0A] @ ascii ''b'']))"
  by (simp add: run_events_def run_defs str_defs)

text \<open>
  C1, amended. Supervisor thinking events with string messages, processed from a state
  with no main slot open, every fragment after the first non-empty: the events make one
  new entry, the main slot, and its text is the fragments joined by single newlines, a
  fragment's own final newline counting as the separator. For the two lines of the
  specification's example (messages \<open>x\<close> and \<open>y\<close>) after a submission, the transcript that
  ChatDisplay shows is one entry with text \<open>x\<close>, newline, \<open>y\<close>.
\<close>

theorem thinking_fragments_joined:
  "(currentMainMessageIndex s = - 1
    \<and> list_all2 (\<lambda>e f. map_of e key_node = Some (JStr (ascii ''supervisor''))
             \<and> map_of e key_type = Some (JStr (ascii ''thinking''))
             \<and> map_of e key_message = Some (JStr f)) (e # es) (f # fs)
    \<and> list_all (\<lambda>f. f \<noteq> []) fs \<longrightarrow>
      messages (run_events (e # es) s)
        = messages s @ [AList.update key_message (JStr (joined (f # fs))) e]
      \<and> map_of (last (messages (run_events (e # es) s))) key_message
          = Some (JStr (joined (f # fs)))
      \<and> currentMainMessageIndex (run_events (e # es) s) = int (length (messages s)))
   \<and> (parse (trim (drop 6 (thinking_line ''x'')))
         = Some (event ''thinking'' ''supervisor'' (ascii ''A'') (ascii ''x''))
       \<and> parse (trim (drop 6 (thinking_line ''y'')))
         = Some (event ''thinking'' ''supervisor'' (ascii ''A'') (ascii ''y'')) \<longrightarrow>
         filteredMessages (messages (readStream parse
            [thinking_line ''x'' @ [0x0A], thinking_line ''y'' @ [0x0A]]
            (handleSubmit task now s0)))
         = [event ''thinking'' ''supervisor'' (ascii ''A'') (ascii ''x'' @ [0x0A] @ ascii ''y'')])"
proof (intro conjI impI)
  assume h: "currentMainMessageIndex s = - 1
    \<and> list_all2 (\<lambda>e f. map_of e key_node = Some (JStr (ascii ''supervisor''))
             \<and> map_of e key_type = Some (JStr (ascii ''thinking''))
             \<and> map_of e key_message = Some (JStr f)) (e # es) (f # fs)
    \<and> list_all (\<lambda>f. f \<noteq> []) fs"
  then have r: "run_events (e # es) s =
           s\<lparr>messages := messages s @ [AList.update key_message (JStr (joined (f # fs))) e],
             currentMainMessageIndex := int (length (messages s))\<rparr>"
    using thinking_run_from_closed [of s e es f fs] by blast
  show "messages (run_events (e # es) s)
        = messages s @ [AList.update key_message (JStr (joined (f # fs))) e]"
    by (simp add: r)
  show "map_of (last (messages (run_events (e # es) s))) key_message
          = Some (JStr (joined (f # fs)))"
    by (simp add: r update_conv)
  show "currentMainMessageIndex (run_events (e # es) s) = int (length (messages s))"
    by (simp add: r)
next
  assume "parse (trim (drop 6 (thinking_line ''x'')))
         = Some (event ''thinking'' ''supervisor'' (ascii ''A'') (ascii ''x''))
       \<and> parse (trim (drop 6 (thinking_line ''y'')))
         = Some (event ''thinking'' ''supervisor'' (ascii ''A'') (ascii ''y''))"
  then show "filteredMessages (messages (readStream parse
            [thinking_line ''x'' @ [0x0A], thinking_line ''y'' @ [0x0A]]
            (handleSubmit task now s0)))
         = [event ''thinking'' ''supervisor'' (ascii ''A'') (ascii ''x'' @ [0x0A] @ ascii ''y'')]"
    using example_run [of parse task now s0] by blast
qed

theorem thinking_fragments_joined_witness:
  "messages (run_events
       [event ''thinking'' ''supervisor'' (ascii ''A'') (ascii ''a'' @ [0x0A]),
        event ''thinking'' ''supervisor'' (ascii ''A'') (ascii ''b''),
        event ''thinking'' ''supervisor'' (ascii ''A'') (ascii ''c'')]
       (handleSubmit (ascii ''task'') (ascii ''now'') initial_state))
     = [userMessage (ascii ''task'') (ascii ''now''),
        event ''thinking'' ''supervisor'' (ascii ''A'')
          (ascii ''a'' @ [0x0A] @ ascii ''b'' @ [0x0A] @ ascii ''c'')]
   \<and> filteredMessages (messages (readStream example_parse
          [thinking_line ''x'' @ [0x0A], thinking_line ''y'' @ [0x0A]]
          (handleSubmit (ascii ''task'') (ascii ''now'') initial_state)))
     = [event ''thinking'' ''supervisor'' (ascii ''A'') (ascii ''x'' @ [0x0A] @ ascii ''y'')]"
proof -
  let ?s = "handleSubmit (ascii ''task'') (ascii ''now'') initial_state"
  let ?e = "event ''thinking'' ''supervisor'' (ascii ''A'') (ascii ''a'' @ [0x0A])"
  let ?es = "[event ''thinking'' ''supervisor'' (ascii ''A'') (ascii ''b''),
        event ''thinking'' ''supervisor'' (ascii ''A'') (ascii ''c'')]"
  have h: "currentMainMessageIndex ?s = - 1
    \<and> list_all2 (\<lambda>e f. map_of e key_node = Some (JStr (ascii ''supervisor''))
             \<and> map_of e key_type = Some (JStr (ascii ''thinking''))
             \<and> map_of e key_message = Some (JStr f)) (?e # ?es)
          ((ascii ''a'' @ [0x0A]) # [ascii ''b'', ascii ''c''])
    \<and> list_all (\<lambda>f. f \<noteq> []) [ascii ''b'', ascii ''c'']"
    by (simp add: run_defs str_defs)
  have p: "example_parse (trim (drop 6 (thinking_line ''x'')))
         = Some (event ''thinking'' ''supervisor'' (ascii ''A'') (ascii ''x''))
       \<and> example_parse (trim (drop 6 (thinking_line ''y'')))
         = Some (event ''thinking'' ''supervisor'' (ascii ''A'') (ascii ''y''))"
    by (simp add: example_parse_def thinking_line_def ascii_def trim_def is_js_whitespace_def)
  note c1 = thinking_fragments_joined [where s = "?s" and e = "?e" and es = "?es"
      and f = "ascii ''a'' @ [0x0A]" and fs = "[ascii ''b'', ascii ''c'']"
      and parse = example_parse and task = "ascii ''task''" and now = "ascii ''now''"
      and ?s0.0 = initial_state]
  from c1 h have "messages (run_events (?e # ?es) ?s)
        = messages ?s @ [AList.update key_message
            (JStr (joined ((ascii ''a'' @ [0x0A]) # [ascii ''b'', ascii ''c'']))) ?e]"
    by blast
  then have a: "messages (run_events (?e # ?es) ?s)
     = [userMessage (ascii ''task'') (ascii ''now''),
        event ''thinking'' ''supervisor'' (ascii ''A'')
          (ascii ''a'' @ [0x0A] @ ascii ''b'' @ [0x0A] @ ascii ''c'')]"
    by (simp add: handleSubmit_def updateAgentStatus_def event_def str_defs endsWith_def)
  from c1 p have b: "filteredMessages (messages (readStream example_parse
          [thinking_line ''x'' @ [0x0A], thinking_line ''y'' @ [0x0A]] ?s))
     = [event ''thinking'' ''supervisor'' (ascii ''A'') (ascii ''x'' @ [0x0A] @ ascii ''y'')]"
    by blast
  from a b show ?thesis by simp
qed

section \<open>A submission while an earlier reader is still delivering\<close>

lemma dispatch_resume:
  "handleEvent e s = (case dispatch e s of Inl err \<Rightarrow> Inl err | Inr s1 \<Rightarrow> Inr (resume e s1))"
  by (simp add: handleEvent_def dispatch_def resume_def split: sum.splits)

lemma reader_alone:
  assumes "1 \<le> r" "r \<le> readers p" "map_of (suspended p) r = None"
    and "handleEvent e (app p) = Inr s'"
  shows "run_actions [Dispatch r e, Resume r] p = Some (p\<lparr>app := s'\<rparr>)"
proof -
  from assms(4) obtain s1 where d: "dispatch e (app p) = Inr s1" and s': "s' = resume e s1"
    by (auto simp add: dispatch_resume split: sum.splits)
  have "AList.delete r (AList.update r e (suspended p)) = suspended p"
    using assms(3) by (simp add: delete_update_same delete_notin_dom map_of_eq_None_iff)
  then show ?thesis
    using assms(1,2,3) d s' by (simp add: update_conv)
qed

text \<open>
  C3. The property as the specification states it fails: the code keeps no run id and
  cancels no reader. After the final event of a first run \<open>loading\<close> is false, so a second
  task can be submitted while the first reader is still open; the end event that the
  first reader then delivers is appended to the transcript of the second run, and it
  closes the second run's main slot.
\<close>

theorem old_run_event_in_new_transcript:
  "map_option (\<lambda>p. loading (app p)) (run_actions
      [Submit (ascii ''first'') (ascii ''t1''),
       Dispatch 1 (event ''thinking'' ''supervisor'' name_supervisor (ascii ''one'')),
       Resume 1,
       Dispatch 1 (event ''final'' ''supervisor'' name_supervisor (ascii ''answer'')),
       Resume 1]
      initial_page) = Some False
   \<and> map_option (\<lambda>p. messages (app p)) (run_actions
      [Submit (ascii ''first'') (ascii ''t1''),
       Dispatch 1 (event ''thinking'' ''supervisor'' name_supervisor (ascii ''one'')),
       Resume 1,
       Dispatch 1 (event ''final'' ''supervisor'' name_supervisor (ascii ''answer'')),
       Resume 1,
       Submit (ascii ''second'') (ascii ''t2''),
       Dispatch 2 (event ''thinking'' ''supervisor'' name_supervisor (ascii ''two'')),
       Resume 2,
       Dispatch 1 (event ''end'' ''supervisor'' str_system (ascii ''old run over'')),
       Resume 1]
      initial_page)
     = Some [userMessage (ascii ''second'') (ascii ''t2''),
        event ''thinking'' ''supervisor'' name_supervisor (ascii ''two''),
        event ''end'' ''supervisor'' str_system (ascii ''old run over'')]
   \<and> map_option (\<lambda>p. currentMainMessageIndex (app p)) (run_actions
      [Submit (ascii ''first'') (ascii ''t1''),
       Dispatch 1 (event ''thinking'' ''supervisor'' name_supervisor (ascii ''one'')),
       Resume 1,
       Dispatch 1 (event ''final'' ''supervisor'' name_supervisor (ascii ''answer'')),
       Resume 1,
       Submit (ascii ''second'') (ascii ''t2''),
       Dispatch 2 (event ''thinking'' ''supervisor'' name_supervisor (ascii ''two'')),
       Resume 2,
       Dispatch 1 (event ''end'' ''supervisor'' str_system (ascii ''old run over'')),
       Resume 1]
      initial_page) = Some (- 1)"
  by (simp add: initial_page_def dispatch_def resume_def run_defs str_defs)

text \<open>
  C3, amended. A submission discards the transcript of the run before: whatever the state,
  after \<open>handleSubmit\<close> the transcript is the user entry of the new task alone, which
  ChatDisplay does not show, the main-slot index is none, \<open>loading\<close> is set and every agent
  is active.
\<close>

theorem submit_discards_entries_only:
  "messages (handleSubmit task now s) = [userMessage task now]
   \<and> filteredMessages (messages (handleSubmit task now s)) = []
   \<and> currentMainMessageIndex (handleSubmit task now s) = - 1
   \<and> loading (handleSubmit task now s) = True
   \<and> list_all (\<lambda>a. status a = Active \<and> active a) (agentTeam (handleSubmit task now s))"
proof -
  have "list_all (\<lambda>a. status a = Active \<and> active a) (map (set_agent Active) xs)" for xs
    by (induction xs) (simp_all add: set_agent_def)
  then show ?thesis
    by (simp add: handleSubmit_def updateAgentStatus_def filteredMessages_def userMessage_def
        str_defs)
qed

section \<open>Merging with object identity\<close>

lemma refs_valid_nth:
  assumes "refs_valid h" "i < length (messageRefs h)"
  shows "messageRefs h ! i < length (store h)"
  using assms by (simp add: refs_valid_def list_all_length)

lemma view_messages_nth:
  assumes "i < length (messageRefs h)"
  shows "messages (view h s) ! i = store h ! (messageRefs h ! i)"
  using assms by (simp add: view_def)

lemma map_store_extended:
  assumes "refs_valid h"
  shows "map (\<lambda>r. (store h @ objs) ! r) (messageRefs h) = map (\<lambda>r. store h ! r) (messageRefs h)"
  using assms by (simp add: refs_valid_def list_all_iff nth_append)

lemma merge_into_h_open:
  assumes "mainIndex h = int i" "i < length (messageRefs h)"
    and "map_of (store h ! (messageRefs h ! i)) key_message = Some (JStr m)"
  shows "merge_into_h sep addition h =
           Inr (h\<lparr>store := store h @ [AList.update key_message
                    (JStr (m @ (if endsWith m str_newline then [] else sep) @ addition))
                    (store h ! (messageRefs h ! i))],
                  messageRefs := (messageRefs h)[i := length (store h)]\<rparr>)"
  using assms by (simp add: merge_into_h_def alloc_def)

lemma view_after_merge:
  assumes "refs_valid h" "i < length (messageRefs h)"
  shows "view (h\<lparr>store := store h @ [obj],
                 messageRefs := (messageRefs h)[i := length (store h)]\<rparr>) s
         = (view h s)\<lparr>messages := (messages (view h s))[i := obj]\<rparr>"
proof -
  have "map (\<lambda>r. (store h @ [obj]) ! r) ((messageRefs h)[i := length (store h)])
        = (map (\<lambda>r. (store h @ [obj]) ! r) (messageRefs h))[i := obj]"
    by (simp add: map_update)
  also have "\<dots> = (map (\<lambda>r. store h ! r) (messageRefs h))[i := obj]"
    by (simp only: map_store_extended [OF assms(1)])
  finally show ?thesis
    by (simp add: view_def)
qed

lemma aggregate_h_merges:
  assumes "map_of (store h ! parsedData) key_type = Some (JStr k)"
    and "k = ascii ''thinking'' \<or> k = ascii ''status'' \<or> k = ascii ''result''
         \<or> k = ascii ''final'' \<or> k = ascii ''error''"
    and "mainIndex h \<noteq> - 1"
  shows "aggregate_h parsedData tf h =
           merge_into_h
             (if k = ascii ''thinking'' \<or> k = ascii ''status'' then str_newline
              else str_double_newline)
             (if k = ascii ''error'' then str_cross_mark @ to_string tf else to_string tf) h"
    and "aggregate (store h ! parsedData) tf (view h s) =
           merge_into
             (if k = ascii ''thinking'' \<or> k = ascii ''status'' then str_newline
              else str_double_newline)
             (if k = ascii ''error'' then str_cross_mark @ to_string tf else to_string tf)
             (view h s)"
proof -
  have v: "currentMainMessageIndex (view h s) \<noteq> - 1"
    using assms(3) by (simp add: view_def)
  from assms(2) consider "k = ascii ''thinking''" | "k = ascii ''status''"
    | "k = ascii ''result''" | "k = ascii ''final''" | "k = ascii ''error''"
    by blast
  then show "aggregate_h parsedData tf h =
           merge_into_h
             (if k = ascii ''thinking'' \<or> k = ascii ''status'' then str_newline
              else str_double_newline)
             (if k = ascii ''error'' then str_cross_mark @ to_string tf else to_string tf) h"
    using assms(1,3) by cases (simp_all add: aggregate_h_def ascii_def)
  from assms(2) consider "k = ascii ''thinking''" | "k = ascii ''status''"
    | "k = ascii ''result''" | "k = ascii ''final''" | "k = ascii ''error''"
    by blast
  then show "aggregate (store h ! parsedData) tf (view h s) =
           merge_into
             (if k = ascii ''thinking'' \<or> k = ascii ''status'' then str_newline
              else str_double_newline)
             (if k = ascii ''error'' then str_cross_mark @ to_string tf else to_string tf)
             (view h s)"
    using assms(1) v by cases (simp_all add: aggregate_def ascii_def)
qed
text \<open>
  C7. A merge of a thinking, status, result, final or error event into the open main slot
  stores at the main-slot index the reference of an object made by the merge: it differs
  from the reference stored before, it is the address of no object that existed before,
  and every object that existed before, the old entry among them, is unchanged. The
  transcript by value that results is the one of \<open>aggregate\<close>.
\<close>

theorem merge_replaces_entry_object:
  assumes "refs_valid h"
    and "map_of obj key_type = Some (JStr k)"
    and "k = ascii ''thinking'' \<or> k = ascii ''status'' \<or> k = ascii ''result''
         \<or> k = ascii ''final'' \<or> k = ascii ''error''"
    and "mainIndex h = int i" "i < length (messageRefs h)"
    and "map_of (store h ! (messageRefs h ! i)) key_message = Some (JStr m)"
  shows "\<exists>h'. aggregate_parsed obj tf h = Inr h'
           \<and> messageRefs h' ! i \<noteq> messageRefs h ! i
           \<and> length (store h) \<le> messageRefs h' ! i
           \<and> take (length (store h)) (store h') = store h
           \<and> store h' ! (messageRefs h ! i) = store h ! (messageRefs h ! i)
           \<and> messageRefs h' = (messageRefs h)[i := messageRefs h' ! i]
           \<and> refs_valid h'
           \<and> aggregate obj tf (view h s) = Inr (view h' s)"
proof -
  let ?h1 = "h\<lparr>store := store h @ [obj]\<rparr>"
  let ?p = "length (store h)"
  let ?sep = "if k = ascii ''thinking'' \<or> k = ascii ''status'' then str_newline
              else str_double_newline"
  let ?addition = "if k = ascii ''error'' then str_cross_mark @ to_string tf else to_string tf"
  let ?old = "messageRefs h ! i"
  let ?new = "AList.update key_message
                (JStr (m @ (if endsWith m str_newline then [] else ?sep) @ ?addition))
                (store h ! ?old)"
  let ?h' = "?h1\<lparr>store := store ?h1 @ [?new],
                  messageRefs := (messageRefs ?h1)[i := length (store ?h1)]\<rparr>"
  have old: "?old < length (store h)"
    using assms(1,5) by (rule refs_valid_nth)
  have valid1: "refs_valid ?h1"
    using assms(1) by (auto simp add: refs_valid_def list_all_iff)
  have p: "store ?h1 ! ?p = obj"
    by simp
  have slot1: "map_of (store ?h1 ! (messageRefs ?h1 ! i)) key_message = Some (JStr m)"
    using assms(6) old by (simp add: nth_append)
  have open1: "mainIndex ?h1 = int i" "i < length (messageRefs ?h1)" "mainIndex ?h1 \<noteq> - 1"
    using assms(4,5) by simp_all
  have ty1: "map_of (store ?h1 ! ?p) key_type = Some (JStr k)"
    using assms(2) by simp
  have "aggregate_h ?p tf ?h1 = merge_into_h ?sep ?addition ?h1"
    using ty1 assms(3) open1(3) by (rule aggregate_h_merges(1))
  also have "\<dots> = Inr ?h'"
    using merge_into_h_open [OF open1(1,2) slot1, of ?sep ?addition] old
    by (simp add: nth_append)
  finally have run: "aggregate_parsed obj tf h = Inr ?h'"
    by (simp add: aggregate_parsed_def alloc_def)
  have view1: "view ?h1 s = view h s"
    using map_store_extended [OF assms(1), of "[obj]"] by (simp add: view_def)
  have "aggregate obj tf (view h s) = merge_into ?sep ?addition (view h s)"
    using aggregate_h_merges(2) [OF ty1 assms(3) open1(3), of tf s] by (simp add: view1)
  also have "\<dots> = Inr ((view h s)\<lparr>messages := (messages (view h s))[i := ?new]\<rparr>)"
    using merge_into_open [of "view h s" i m ?sep ?addition] assms(4,5,6)
    by (simp add: view_def)
  also have "(view h s)\<lparr>messages := (messages (view h s))[i := ?new]\<rparr> = view ?h' s"
    using view_after_merge [OF valid1 open1(2), of ?new s] by (simp add: view1)
  finally have sim: "aggregate obj tf (view h s) = Inr (view ?h' s)" .
  have fresh: "messageRefs ?h' ! i = Suc ?p"
    using assms(5) by simp
  have valid': "refs_valid ?h'"
    using assms(1,5)
    by (auto simp add: refs_valid_def list_all_iff dest!: set_update_subset_insert [THEN subsetD])
  have "messageRefs ?h' ! i \<noteq> ?old" "length (store h) \<le> messageRefs ?h' ! i"
    using fresh old by simp_all
  moreover have "take (length (store h)) (store ?h') = store h"
    by simp
  moreover have "store ?h' ! ?old = store h ! ?old"
    using old by (simp add: nth_append)
  moreover have "messageRefs ?h' = (messageRefs h)[i := messageRefs ?h' ! i]"
    using assms(5) by simp
  ultimately show ?thesis
    using run valid' sim by blast
qed

theorem merge_replaces_entry_object_witness:
  "aggregate_parsed (event ''result'' ''supervisor'' name_supervisor (ascii ''done'')) (Text (ascii ''done''))
      \<lparr>store = [userMessage (ascii ''task'') (ascii ''now''),
                event ''thinking'' ''supervisor'' name_supervisor (ascii ''hm'')],
       messageRefs = [0, 1], mainIndex = 1\<rparr>
   = Inr \<lparr>store = [userMessage (ascii ''task'') (ascii ''now''),
                event ''thinking'' ''supervisor'' name_supervisor (ascii ''hm''),
                event ''result'' ''supervisor'' name_supervisor (ascii ''done''),
                event ''thinking'' ''supervisor'' name_supervisor
                  (ascii ''hm'' @ [0x0A, 0x0A] @ ascii ''done'')],
       messageRefs = [0, 3], mainIndex = 1\<rparr>"
proof -
  let ?h = "\<lparr>store = [userMessage (ascii ''task'') (ascii ''now''),
                event ''thinking'' ''supervisor'' name_supervisor (ascii ''hm'')],
       messageRefs = [0, 1], mainIndex = 1\<rparr>"
  let ?obj = "event ''result'' ''supervisor'' name_supervisor (ascii ''done'')"
  have v: "refs_valid ?h"
    by (simp add: refs_valid_def)
  have t: "map_of ?obj key_type = Some (JStr (ascii ''result''))"
    by (simp add: event_def str_defs)
  have i: "mainIndex ?h = int 1" "1 < length (messageRefs ?h)"
    by simp_all
  have m: "map_of (store ?h ! (messageRefs ?h ! 1)) key_message = Some (JStr (ascii ''hm''))"
    by (simp add: event_def str_defs)
  from merge_replaces_entry_object [OF v t _ i m, of "Text (ascii ''done'')" initial_state]
  obtain h' where "aggregate_parsed ?obj (Text (ascii ''done'')) ?h = Inr h'"
    and "messageRefs h' ! 1 \<noteq> messageRefs ?h ! 1"
    by auto
  moreover have "aggregate_parsed ?obj (Text (ascii ''done'')) ?h
     = Inr \<lparr>store = [userMessage (ascii ''task'') (ascii ''now''),
                event ''thinking'' ''supervisor'' name_supervisor (ascii ''hm''),
                event ''result'' ''supervisor'' name_supervisor (ascii ''done''),
                event ''thinking'' ''supervisor'' name_supervisor
                  (ascii ''hm'' @ [0x0A, 0x0A] @ ascii ''done'')],
       messageRefs = [0, 3], mainIndex = 1\<rparr>"
    by (simp add: aggregate_parsed_def alloc_def aggregate_h_def merge_into_h_def endsWith_def
        event_def str_defs)
  ultimately show ?thesis by simp
qed


end
